theory Spec2Isabelle
  imports Complex_Main "HOL-Library.Multiset"
begin

section \<open>Cross-venue spread monitor (scripts/caculate\_profit.py)\<close>

text \<open>
  The script watches the tickers of several exchanges, keeps the last price of every
  symbol per exchange in \<open>price_cache\<close>, computes for every pair of exchanges the
  spread of every common linear swap symbol, sorts the spreads, and puts the first
  three high-spread tuples on \<open>high_spread_queue\<close> when enough data is there.

  Conventions of the embedding:
  \<^item> Python floats are modelled as \<^typ>\<open>real\<close>: the formulas are read as exact
    arithmetic, rounding, infinities and NaN are not modelled.
  \<^item> A Python value that may be \<open>None\<close> is an \<open>option\<close>.
  \<^item> A raised exception is a value of type \<open>exn\<close>; a computation that may raise
    returns \<open>exn + 'a\<close>, with \<open>Inl\<close> the exception.
  \<^item> A dict whose iteration order is used is an association list, a dict that is only
    looked up is a map.
\<close>

subsection \<open>Exceptions\<close>

text \<open>
  \<open>PyException msg\<close> is an instance of Python's class \<open>Exception\<close> (what the clause
  \<open>except Exception as e\<close> of line 104 catches), with \<open>str(e) = msg\<close>.
  \<open>PyBaseException msg\<close> is one of the few classes that derive from \<open>BaseException\<close>
  only (\<open>KeyboardInterrupt\<close>, \<open>SystemExit\<close>, \<open>asyncio.CancelledError\<close>), which that
  clause lets through.
\<close>

datatype exn = PyException string | PyBaseException string

fun is_Exception :: "exn \<Rightarrow> bool" where
  "is_Exception (PyException msg) = True"
| "is_Exception (PyBaseException msg) = False"

fun str :: "exn \<Rightarrow> string" where
  "str (PyException msg) = msg"
| "str (PyBaseException msg) = msg"

definition ZeroDivisionError :: exn where
  "ZeroDivisionError = PyException ''float division by zero''"

text \<open>\<open>str(KeyError(k))\<close> is the key in single quotes.\<close>

definition KeyError :: "string \<Rightarrow> exn" where
  "KeyError k = PyException (CHR 0x27 # k @ [CHR 0x27])"

subsection \<open>Spread of two prices (lines 82--83)\<close>

text \<open>Python's \<open>/\<close> on floats raises \<open>ZeroDivisionError\<close> when the divisor is zero.\<close>

definition truediv :: "real \<Rightarrow> real \<Rightarrow> exn + real" where
  "truediv a b = (if b = 0 then Inl ZeroDivisionError else Inr (a / b))"

text \<open>\<open>spread = price_1 - price_2\<close>\<close>

definition compute_spread :: "real \<Rightarrow> real \<Rightarrow> real" where
  "compute_spread price_1 price_2 = price_1 - price_2"

text \<open>
  \<open>spread_percent = (spread / price_2) * 100 if price_2 else 0\<close>.
  A float is falsy exactly when it is zero. The conditional expression evaluates the
  division only in its true branch.
\<close>

definition compute_spread_percent :: "real \<Rightarrow> real \<Rightarrow> exn + real" where
  "compute_spread_percent price_1 price_2 =
     (let spread = compute_spread price_1 price_2 in
      if price_2 \<noteq> 0
      then (case truediv spread price_2 of
              Inl e \<Rightarrow> Inl e
            | Inr q \<Rightarrow> Inr (q * 100))
      else Inr 0)"

subsection \<open>Python values, dicts and sorting\<close>

text \<open>
  The values found in a market description (ccxt's market dicts hold booleans, numbers,
  strings and \<open>None\<close>), and their truth value in a condition.
\<close>

datatype pyval = PyNone | PyBool bool | PyNum real | PyStr string

fun truthy :: "pyval \<Rightarrow> bool" where
  "truthy PyNone = False"
| "truthy (PyBool b) = b"
| "truthy (PyNum x) = (x \<noteq> 0)"
| "truthy (PyStr s) = (s \<noteq> [])"

text \<open>\<open>d.get(k, dflt)\<close>\<close>

definition dict_get :: "('k \<rightharpoonup> 'v) \<Rightarrow> 'k \<Rightarrow> 'v \<Rightarrow> 'v" where
  "dict_get d k dflt = (case d k of None \<Rightarrow> dflt | Some v \<Rightarrow> v)"

text \<open>\<open>d[k]\<close> on a dict with string keys, kept as an association list.\<close>

definition getitem :: "(string \<times> 'v) list \<Rightarrow> string \<Rightarrow> exn + 'v" where
  "getitem d k = (case map_of d k of None \<Rightarrow> Inl (KeyError k) | Some v \<Rightarrow> Inr v)"

text \<open>
  The keys of a dict built by inserting the given keys in order: every key once, at the
  place of its first insertion.
\<close>

fun dict_keys :: "'k list \<Rightarrow> 'k list" where
  "dict_keys [] = []"
| "dict_keys (k # ks) = k # filter (\<lambda>k'. k' \<noteq> k) (dict_keys ks)"

text \<open>
  \<open>xs.sort(key=key, reverse=True)\<close>: Python's sort is stable, and with \<open>reverse=True\<close>
  it still keeps elements with equal keys in their original order. That is a stable
  ascending sort on the negated key.
\<close>

definition list_sort_reverse :: "('a \<Rightarrow> real) \<Rightarrow> 'a list \<Rightarrow> 'a list" where
  "list_sort_reverse key xs = sort_key (\<lambda>x. - key x) xs"

text \<open>A \<open>for\<close> loop over a list whose body may raise: the first exception ends it.\<close>

fun for_each :: "('a \<Rightarrow> 's \<Rightarrow> exn + 's) \<Rightarrow> 'a list \<Rightarrow> 's \<Rightarrow> exn + 's" where
  "for_each body [] s = Inr s"
| "for_each body (x # xs) s =
     (case body x s of Inl e \<Rightarrow> Inl e | Inr s' \<Rightarrow> for_each body xs s')"

subsection \<open>Catalogs and common pairs (lines 16--24)\<close>

type_synonym symbol = string
type_synonym exchange_name = string
type_synonym market = "string \<rightharpoonup> pyval"

text \<open>
  Of an exchange object the script reads \<open>markets\<close>, a dict from symbol to market
  description (its keys are iterated in insertion order), and calls \<open>watch_tickers\<close>,
  which is part of the environment of a cycle below.
\<close>

record exchange =
  markets :: "(symbol \<times> market) list"

text \<open>
  \<open>m.get('swap', False) and m.get('linear', False)\<close>, the filter of the three
  comprehensions of lines 19, 22 and 33.
\<close>

definition is_linear_swap :: "market \<Rightarrow> bool" where
  "is_linear_swap m =
     (truthy (dict_get m ''swap'' (PyBool False)) \<and> truthy (dict_get m ''linear'' (PyBool False)))"

text \<open>
  The condition of those comprehensions on a symbol:
  \<open>exchange.markets[symbol].get('swap', False) and
  exchange.markets[symbol].get('linear', False)\<close>. In the comprehensions the symbol
  comes from the dict's own keys, so \<open>exchange.markets[symbol]\<close> cannot raise
  \<open>KeyError\<close>; no symbol outside the dict qualifies.
\<close>

definition qualifies :: "exchange \<Rightarrow> symbol \<Rightarrow> bool" where
  "qualifies exchange symbol =
     (case map_of (markets exchange) symbol of
        Some m \<Rightarrow> is_linear_swap m
      | None \<Rightarrow> False)"

text \<open>\<open>symbol for symbol in exchange.markets if ...\<close>, in the order of the dict.\<close>

definition linear_swap_symbols :: "exchange \<Rightarrow> symbol list" where
  "linear_swap_symbols exchange = filter (qualifies exchange) (map fst (markets exchange))"

text \<open>
  \<open>list(exchange_1_pairs.intersection(exchange_2_pairs))\<close>. The order in which Python
  lists the elements of a set is not specified; it is the parameter \<open>to_list\<close>.
\<close>

definition get_common_pairs ::
  "(symbol set \<Rightarrow> symbol list) \<Rightarrow> exchange \<Rightarrow> exchange \<Rightarrow> symbol list" where
  "get_common_pairs to_list exchange_1 exchange_2 =
     (let exchange_1_pairs = set (linear_swap_symbols exchange_1);
          exchange_2_pairs = set (linear_swap_symbols exchange_2)
      in to_list (exchange_1_pairs \<inter> exchange_2_pairs))"

text \<open>A listing of a set: every element once.\<close>

definition lists_set :: "('a set \<Rightarrow> 'a list) \<Rightarrow> 'a set \<Rightarrow> bool" where
  "lists_set to_list S = (set (to_list S) = S \<and> distinct (to_list S))"

text \<open>One such listing, for the sets of elements of a given list: in the order of that list.\<close>

definition in_order_of :: "'a list \<Rightarrow> 'a set \<Rightarrow> 'a list" where
  "in_order_of ref_list S = filter (\<lambda>x. x \<in> S) (dict_keys ref_list)"

text \<open>
  Lines 53--54: \<open>{exchange_name: getattr(ccxtpro, exchange_name)() for exchange_name in
  exchange_names}\<close>, followed by \<open>load_markets\<close>. \<open>ccxtpro name\<close> is the exchange object
  of that name with its markets loaded.
\<close>

definition make_exchanges ::
  "(exchange_name \<Rightarrow> exchange) \<Rightarrow> exchange_name list \<Rightarrow> (exchange_name \<times> exchange) list" where
  "make_exchanges ccxtpro exchange_names =
     map (\<lambda>exchange_name. (exchange_name, ccxtpro exchange_name)) (dict_keys exchange_names)"

subsection \<open>Price cache and ingestion (lines 27--44)\<close>

text \<open>
  Of ccxt's ticker structure the script reads the key \<open>'last'\<close>, which ccxt always
  provides, as a number or \<open>None\<close>.
\<close>

record ticker =
  last_price :: "real option"

text \<open>\<open>price_cache\<close>: a dict from symbol to a dict from exchange name to the last price.\<close>

type_synonym price_table = "symbol \<rightharpoonup> (exchange_name \<rightharpoonup> real option)"

type_synonym ticker_data = "(symbol \<times> ticker) list"

text \<open>
  Lines 42--44:
  \<open>if symbol not in price_cache: price_cache[symbol] = {}\<close>;
  \<open>price_cache[symbol][exchange_name] = ticker['last']\<close>.
\<close>

definition store_price ::
  "exchange_name \<Rightarrow> symbol \<Rightarrow> ticker \<Rightarrow> price_table \<Rightarrow> price_table" where
  "store_price exchange_name symbol ticker price_cache =
     price_cache(symbol \<mapsto> (dict_get price_cache symbol Map.empty)(exchange_name \<mapsto> last_price ticker))"

text \<open>Lines 32--35: one task per exchange that has at least one linear swap symbol.\<close>

definition make_tasks ::
  "(exchange_name \<times> exchange) list \<Rightarrow> (exchange_name \<Rightarrow> symbol list \<Rightarrow> exn + ticker_data)
     \<Rightarrow> (exchange_name \<times> (exn + ticker_data)) list" where
  "make_tasks exchanges watch_tickers =
     concat (map (\<lambda>(exchange_name, exchange).
                    let symbols = linear_swap_symbols exchange
                    in if symbols \<noteq> [] then [(exchange_name, watch_tickers exchange_name symbols)]
                       else [])
                 exchanges)"

text \<open>
  \<open>asyncio.gather\<close>: the results of all tasks in task order, or the exception of a task
  that raised. When several tasks raise, the one whose exception comes out depends on
  timing; the model takes the first in task order.
\<close>

fun gather :: "(exn + 'a) list \<Rightarrow> exn + 'a list" where
  "gather [] = Inr []"
| "gather (t # ts) =
     (case t of
        Inl e \<Rightarrow> Inl e
      | Inr r \<Rightarrow> (case gather ts of Inl e \<Rightarrow> Inl e | Inr rs \<Rightarrow> Inr (r # rs)))"

text \<open>Lines 40--44: the two nested loops that write the results into the cache.\<close>

definition store_results ::
  "(exchange_name \<times> ticker_data) list \<Rightarrow> price_table \<Rightarrow> price_table" where
  "store_results named_results price_cache =
     fold (\<lambda>(exchange_name, ticker_data).
             fold (\<lambda>(symbol, ticker). store_price exchange_name symbol ticker) ticker_data)
          named_results price_cache"

text \<open>
  \<open>subscribe_tickers\<close> changes \<open>price_cache\<close> in place; the model returns the new cache.
  When \<open>gather\<close> raises, nothing has been written yet.
\<close>

definition subscribe_tickers ::
  "(exchange_name \<times> exchange) list \<Rightarrow> (exchange_name \<Rightarrow> symbol list \<Rightarrow> exn + ticker_data)
     \<Rightarrow> price_table \<Rightarrow> exn + price_table" where
  "subscribe_tickers exchanges watch_tickers price_cache =
     (let tasks = make_tasks exchanges watch_tickers in
      case gather (map snd tasks) of
        Inl e \<Rightarrow> Inl e
      | Inr results \<Rightarrow> Inr (store_results (zip (map fst tasks) results) price_cache))"

subsection \<open>Spread records (lines 65--88)\<close>

text \<open>
  The tuple \<open>(symbol, exchange_1_name, exchange_2_name, price_1, price_2, spread,
  spread_percent)\<close>; \<open>x[6]\<close> is \<open>sr_spread_percent x\<close>.
\<close>

record spread_record =
  sr_symbol :: symbol
  sr_exchange_1_name :: exchange_name
  sr_exchange_2_name :: exchange_name
  sr_price_1 :: real
  sr_price_2 :: real
  sr_spread :: real
  sr_spread_percent :: real

text \<open>\<open>tickers_dict.get(symbol, {}).get(exchange_name, None)\<close>\<close>

definition get_price :: "price_table \<Rightarrow> symbol \<Rightarrow> exchange_name \<Rightarrow> real option" where
  "get_price tickers_dict symbol exchange_name =
     dict_get (dict_get tickers_dict symbol Map.empty) exchange_name None"

text \<open>\<open>abs(spread_percent) > 0.5\<close>\<close>

definition is_high_spread :: "spread_record \<Rightarrow> bool" where
  "is_high_spread x = (\<bar>sr_spread_percent x\<bar> > 0.5)"

text \<open>
  Lines 78--88, the body of the loop over the common pairs. The state of the loop is the
  pair \<open>(spread_data, high_spread_data)\<close>.
\<close>

definition symbol_body ::
  "price_table \<Rightarrow> exchange_name \<Rightarrow> exchange_name \<Rightarrow> symbol
     \<Rightarrow> spread_record list \<times> spread_record list
     \<Rightarrow> exn + spread_record list \<times> spread_record list" where
  "symbol_body tickers_dict exchange_1_name exchange_2_name symbol acc =
     (case (get_price tickers_dict symbol exchange_1_name,
            get_price tickers_dict symbol exchange_2_name) of
        (Some price_1, Some price_2) \<Rightarrow>
          (case compute_spread_percent price_1 price_2 of
             Inl e \<Rightarrow> Inl e
           | Inr spread_percent \<Rightarrow>
               let x = \<lparr>sr_symbol = symbol,
                        sr_exchange_1_name = exchange_1_name,
                        sr_exchange_2_name = exchange_2_name,
                        sr_price_1 = price_1, sr_price_2 = price_2,
                        sr_spread = compute_spread price_1 price_2,
                        sr_spread_percent = spread_percent\<rparr>
               in Inr (fst acc @ [x],
                       if is_high_spread x then snd acc @ [x] else snd acc))
      | _ \<Rightarrow> Inr acc)"

text \<open>Lines 71--88, the body of the loop over \<open>j\<close>.\<close>

definition pair_body ::
  "(symbol set \<Rightarrow> symbol list) \<Rightarrow> (exchange_name \<times> exchange) list \<Rightarrow> price_table
     \<Rightarrow> exchange_name list \<Rightarrow> nat \<Rightarrow> nat
     \<Rightarrow> spread_record list \<times> spread_record list
     \<Rightarrow> exn + spread_record list \<times> spread_record list" where
  "pair_body to_list exchanges tickers_dict exchange_names i j acc =
     (let exchange_1_name = exchange_names ! i;
          exchange_2_name = exchange_names ! j
      in case getitem exchanges exchange_1_name of
           Inl e \<Rightarrow> Inl e
         | Inr exchange_1 \<Rightarrow>
             (case getitem exchanges exchange_2_name of
                Inl e \<Rightarrow> Inl e
              | Inr exchange_2 \<Rightarrow>
                  for_each (symbol_body tickers_dict exchange_1_name exchange_2_name)
                    (get_common_pairs to_list exchange_1 exchange_2) acc))"

text \<open>
  Lines 65--88: \<open>for i in range(len(exchange_names)): for j in range(i + 1,
  len(exchange_names))\<close>, from empty lists. Both indices stay below the length of
  \<open>exchange_names\<close>.
\<close>

definition compute_spreads ::
  "(symbol set \<Rightarrow> symbol list) \<Rightarrow> (exchange_name \<times> exchange) list \<Rightarrow> price_table
     \<Rightarrow> exchange_name list \<Rightarrow> exn + spread_record list \<times> spread_record list" where
  "compute_spreads to_list exchanges tickers_dict exchange_names =
     for_each
       (\<lambda>i. for_each (pair_body to_list exchanges tickers_dict exchange_names i)
                      [i + 1 ..< length exchange_names])
       [0 ..< length exchange_names] ([], [])"

subsection \<open>The engine loop (lines 47--106)\<close>

text \<open>
  What the script prints and how long it sleeps. The text that \<open>format_ticker_status\<close>
  builds from the ten tuples it is given is not modelled: the event holds the tuples.
\<close>

datatype event = Print_status "spread_record list" | Print_error string | Sleep real

text \<open>
  The variables that live across cycles. \<open>high_spread_queue\<close> is the module's
  \<open>asyncio.Queue()\<close>, unbounded, seen from the producer: the items put so far, oldest
  first.
\<close>

record engine_state =
  last_time :: real
  price_cache :: price_table
  high_spread_queue :: "spread_record list list"
  effects :: "event list"

text \<open>
  What a cycle gets from outside: the outcome of \<open>exchange.watch_tickers(symbols)\<close> for
  each exchange, and the value of \<open>time.time()\<close>.
\<close>

record cycle_env =
  watch_tickers :: "exchange_name \<Rightarrow> symbol list \<Rightarrow> exn + ticker_data"
  time_now :: real

text \<open>\<open>spread_data.sort(key=lambda x: abs(x[6]), reverse=True)\<close>\<close>

definition rank :: "spread_record list \<Rightarrow> spread_record list" where
  "rank spread_data = list_sort_reverse (\<lambda>x. \<bar>sr_spread_percent x\<bar>) spread_data"

text \<open>
  Lines 91--102, the rest of the cycle once the two lists are there: the sort, the status
  print at most once per 60 seconds, and the gate in front of the queue.
\<close>

definition finish_cycle ::
  "cycle_env \<Rightarrow> spread_record list \<Rightarrow> spread_record list \<Rightarrow> engine_state \<Rightarrow> engine_state" where
  "finish_cycle env discovered high_spread_data st1 =
     (let spread_data = rank discovered;
          current_time = time_now env;
          st2 = (if current_time - last_time st1 \<ge> 60
                 then st1\<lparr>last_time := current_time,
                         effects := effects st1 @ [Print_status (take 10 spread_data)]\<rparr>
                 else st1)
      in if length spread_data \<ge> 250 \<and> length high_spread_data \<ge> 3
         then st2\<lparr>high_spread_queue := high_spread_queue st2 @ [take 3 high_spread_data]\<rparr>
         else st2)"

text \<open>
  Lines 61--102, the body of \<open>try\<close>, run once. It returns the state it leaves behind
  and the exception that ended it, if any. A write to \<open>price_cache\<close> stays when a later
  statement raises. \<open>tickers_dict\<close> is a copy of the cache just written.
\<close>

definition cycle ::
  "(symbol set \<Rightarrow> symbol list) \<Rightarrow> (exchange_name \<times> exchange) list \<Rightarrow> exchange_name list
     \<Rightarrow> cycle_env \<Rightarrow> engine_state \<Rightarrow> engine_state \<times> exn option" where
  "cycle to_list exchanges exchange_names env st =
     (case subscribe_tickers exchanges (watch_tickers env) (price_cache st) of
        Inl e \<Rightarrow> (st, Some e)
      | Inr cache \<Rightarrow>
          let st1 = st\<lparr>price_cache := cache\<rparr>;
              tickers_dict = cache
          in case compute_spreads to_list exchanges tickers_dict exchange_names of
               Inl e \<Rightarrow> (st1, Some e)
             | Inr (discovered, high_spread_data) \<Rightarrow>
                 (finish_cycle env discovered high_spread_data st1, None))"

text \<open>
  The \<open>while True\<close> loop, run on the environments of its first cycles. It has no
  \<open>break\<close> and no \<open>return\<close>: after the given cycles it is still running, in the state
  \<open>Running st\<close>, unless an exception that \<open>except Exception\<close> does not catch has left
  it, \<open>Raised e\<close>. The handler prints \<open>f"Error: {str(e)}"\<close> and sleeps 5 seconds.
\<close>

datatype run = Running engine_state | Raised exn

fun watch_loop ::
  "(symbol set \<Rightarrow> symbol list) \<Rightarrow> (exchange_name \<times> exchange) list \<Rightarrow> exchange_name list
     \<Rightarrow> cycle_env list \<Rightarrow> engine_state \<Rightarrow> run" where
  "watch_loop to_list exchanges exchange_names [] st = Running st"
| "watch_loop to_list exchanges exchange_names (env # envs) st =
     (case cycle to_list exchanges exchange_names env st of
        (st', None) \<Rightarrow> watch_loop to_list exchanges exchange_names envs st'
      | (st', Some e) \<Rightarrow>
          if is_Exception e
          then watch_loop to_list exchanges exchange_names envs
                 (st'\<lparr>effects := effects st' @ [Print_error (''Error: '' @ str e), Sleep 5]\<rparr>)
          else Raised e)"

text \<open>The state before the first cycle (lines 7, 51 and 57).\<close>

definition initial_state :: engine_state where
  "initial_state =
     \<lparr>last_time = 0, price_cache = Map.empty, high_spread_queue = [], effects = []\<rparr>"

definition watch_all_tickers ::
  "(exchange_name \<Rightarrow> exchange) \<Rightarrow> (symbol set \<Rightarrow> symbol list) \<Rightarrow> exchange_name list
     \<Rightarrow> cycle_env list \<Rightarrow> run" where
  "watch_all_tickers ccxtpro to_list exchange_names envs =
     watch_loop to_list (make_exchanges ccxtpro exchange_names) exchange_names envs
       initial_state"

subsection \<open>What the loops compute, in closed form\<close>

text \<open>
  The tuple that the loop body of lines 78--88 appends for one symbol and one pair of
  exchanges: none when a price is missing, one otherwise.
\<close>

definition spread_record_of ::
  "price_table \<Rightarrow> exchange_name \<Rightarrow> exchange_name \<Rightarrow> symbol \<Rightarrow> spread_record list" where
  "spread_record_of tickers_dict exchange_1_name exchange_2_name symbol =
     (case (get_price tickers_dict symbol exchange_1_name,
            get_price tickers_dict symbol exchange_2_name) of
        (Some price_1, Some price_2) \<Rightarrow>
          [\<lparr>sr_symbol = symbol,
            sr_exchange_1_name = exchange_1_name,
            sr_exchange_2_name = exchange_2_name,
            sr_price_1 = price_1, sr_price_2 = price_2,
            sr_spread = price_1 - price_2,
            sr_spread_percent =
              (if price_2 \<noteq> 0 then (price_1 - price_2) / price_2 * 100 else 0)\<rparr>]
      | _ \<Rightarrow> [])"

text \<open>The tuples of one pair of exchanges, in the order of its common pairs.\<close>

definition pair_records ::
  "(symbol set \<Rightarrow> symbol list) \<Rightarrow> (exchange_name \<Rightarrow> exchange) \<Rightarrow> price_table
     \<Rightarrow> exchange_name \<Rightarrow> exchange_name \<Rightarrow> spread_record list" where
  "pair_records to_list ccxtpro tickers_dict exchange_1_name exchange_2_name =
     concat (map (spread_record_of tickers_dict exchange_1_name exchange_2_name)
               (get_common_pairs to_list (ccxtpro exchange_1_name) (ccxtpro exchange_2_name)))"

text \<open>All tuples of a cycle, in the order of discovery: pair by pair, \<open>i < j\<close>.\<close>

definition all_records ::
  "(symbol set \<Rightarrow> symbol list) \<Rightarrow> (exchange_name \<Rightarrow> exchange) \<Rightarrow> price_table
     \<Rightarrow> exchange_name list \<Rightarrow> spread_record list" where
  "all_records to_list ccxtpro tickers_dict exchange_names =
     concat (map (\<lambda>i. concat (map (\<lambda>j. pair_records to_list ccxtpro tickers_dict
                                          (exchange_names ! i) (exchange_names ! j))
                                [i + 1 ..< length exchange_names]))
               [0 ..< length exchange_names])"

subsection \<open>Observing the price cache\<close>

text \<open>
  \<open>stored cache symbol exchange_name\<close> is the value of
  \<open>cache[symbol][exchange_name]\<close>, and \<open>None\<close> when that entry does not exist.
\<close>

definition stored :: "price_table \<Rightarrow> symbol \<Rightarrow> exchange_name \<Rightarrow> real option option" where
  "stored cache symbol exchange_name =
     (case cache symbol of None \<Rightarrow> None | Some by_exchange \<Rightarrow> by_exchange exchange_name)"

text \<open>
  The quotes in the results of one \<open>gather\<close>, each with its key, in the order in which
  the loops of lines 40--44 visit them.
\<close>

definition quotes_of ::
  "(exchange_name \<times> ticker_data) list \<Rightarrow> ((symbol \<times> exchange_name) \<times> real option) list" where
  "quotes_of named_results =
     concat (map (\<lambda>(exchange_name, ticker_data).
                    map (\<lambda>(symbol, ticker). ((symbol, exchange_name), last_price ticker))
                        ticker_data)
                 named_results)"

text \<open>
  The quotes that one call of \<open>subscribe_tickers\<close> takes delivery of: those of the
  results of \<open>gather\<close>, and none when \<open>gather\<close> raises.
\<close>

definition delivered ::
  "(exchange_name \<times> exchange) list \<Rightarrow> (exchange_name \<Rightarrow> symbol list \<Rightarrow> exn + ticker_data)
     \<Rightarrow> ((symbol \<times> exchange_name) \<times> real option) list" where
  "delivered exchanges watch =
     (let tasks = make_tasks exchanges watch in
      case gather (map snd tasks) of
        Inl e \<Rightarrow> []
      | Inr results \<Rightarrow> quotes_of (zip (map fst tasks) results))"

text \<open>The price of the last quote for a key in a sequence of quotes, if there is one.\<close>

definition last_quote ::
  "((symbol \<times> exchange_name) \<times> real option) list \<Rightarrow> symbol \<Rightarrow> exchange_name
     \<Rightarrow> real option option" where
  "last_quote quotes symbol exchange_name = map_of (rev quotes) (symbol, exchange_name)"

subsection \<open>Predicates used in the statements\<close>

text \<open>Every exception that the feed of a cycle raises is an instance of \<open>Exception\<close>.\<close>

definition feed_raises_only_Exception :: "cycle_env \<Rightarrow> bool" where
  "feed_raises_only_Exception env =
     (\<forall>exchange_name symbols e.
        watch_tickers env exchange_name symbols = Inl e \<longrightarrow> is_Exception e)"

text \<open>A batch of exactly three tuples, each of them a high-spread tuple.\<close>

definition batch_ok :: "spread_record list \<Rightarrow> bool" where
  "batch_ok batch = (length batch = 3 \<and> (\<forall>x\<in>set batch. is_high_spread x))"

subsection \<open>Example inputs\<close>

definition linear_swap_market :: market where
  "linear_swap_market = [''swap'' \<mapsto> PyBool True, ''linear'' \<mapsto> PyBool True]"

definition inverse_swap_market :: market where
  "inverse_swap_market = [''swap'' \<mapsto> PyBool True, ''linear'' \<mapsto> PyBool False]"

definition spot_market :: market where
  "spot_market = [''spot'' \<mapsto> PyBool True, ''swap'' \<mapsto> PyBool False, ''linear'' \<mapsto> PyNone]"

text \<open>Three small catalogs; the one of deribit shares no symbol with the other two.\<close>

definition small_ccxtpro :: "exchange_name \<Rightarrow> exchange" where
  "small_ccxtpro exchange_name =
     (if exchange_name = ''binance''
      then \<lparr>markets = [(''BTC/USDT:USDT'', linear_swap_market),
                       (''ETH/USDT:USDT'', linear_swap_market),
                       (''BTC/USDT'', spot_market)]\<rparr>
      else if exchange_name = ''okx''
      then \<lparr>markets = [(''ETH/USDT:USDT'', linear_swap_market),
                       (''BTC/USD:BTC'', inverse_swap_market),
                       (''BTC/USDT:USDT'', linear_swap_market)]\<rparr>
      else if exchange_name = ''deribit''
      then \<lparr>markets = [(''BTC-PERPETUAL'', inverse_swap_market),
                       (''SOL_USDC-PERPETUAL'', linear_swap_market)]\<rparr>
      else \<lparr>markets = []\<rparr>)"

definition small_order :: "symbol set \<Rightarrow> symbol list" where
  "small_order = in_order_of [''BTC/USDT:USDT'', ''ETH/USDT:USDT'']"

text \<open>
  A cycle in which binance quotes both symbols and okx only one, and a cycle in which
  the stream of okx fails.
\<close>

definition small_env :: cycle_env where
  "small_env =
     \<lparr>watch_tickers = (\<lambda>exchange_name symbols.
          if exchange_name = ''binance''
          then Inr [(''BTC/USDT:USDT'', \<lparr>last_price = Some 100\<rparr>),
                    (''ETH/USDT:USDT'', \<lparr>last_price = Some 2000\<rparr>)]
          else Inr [(''BTC/USDT:USDT'', \<lparr>last_price = Some 99\<rparr>)]),
      time_now = 1000\<rparr>"

definition failing_env :: cycle_env where
  "failing_env =
     \<lparr>watch_tickers = (\<lambda>exchange_name symbols.
          if exchange_name = ''okx''
          then Inl (PyException ''okx NetworkError'')
          else Inr [(''BTC/USDT:USDT'', \<lparr>last_price = Some 101\<rparr>)]),
      time_now = 1001\<rparr>"

definition later_env :: cycle_env where
  "later_env =
     \<lparr>watch_tickers = (\<lambda>exchange_name symbols.
          if exchange_name = ''binance''
          then Inr [(''BTC/USDT:USDT'', \<lparr>last_price = Some 102\<rparr>)]
          else Inr [(''BTC/USDT:USDT'', \<lparr>last_price = Some 98\<rparr>)]),
      time_now = 1002\<rparr>"

text \<open>The cache that the first of these cycles leaves behind, from an empty cache.\<close>

definition small_cache :: price_table where
  "small_cache =
     store_results
       [(''binance'', [(''BTC/USDT:USDT'', \<lparr>last_price = Some 100\<rparr>),
                       (''ETH/USDT:USDT'', \<lparr>last_price = Some 2000\<rparr>)]),
        (''okx'', [(''BTC/USDT:USDT'', \<lparr>last_price = Some 99\<rparr>)])]
       Map.empty"

definition later_cache :: price_table where
  "later_cache =
     store_results
       [(''binance'', [(''BTC/USDT:USDT'', \<lparr>last_price = Some 102\<rparr>)]),
        (''okx'', [(''BTC/USDT:USDT'', \<lparr>last_price = Some 98\<rparr>)])]
       small_cache"

definition small_record :: spread_record where
  "small_record =
     \<lparr>sr_symbol = ''BTC/USDT:USDT'', sr_exchange_1_name = ''binance'',
      sr_exchange_2_name = ''okx'', sr_price_1 = 100, sr_price_2 = 99, sr_spread = 1,
      sr_spread_percent = 100 / 99\<rparr>"

text \<open>Three tuples, the first and the last with the same absolute spread percent.\<close>

definition tie_record :: "symbol \<Rightarrow> real \<Rightarrow> spread_record" where
  "tie_record symbol percent =
     \<lparr>sr_symbol = symbol, sr_exchange_1_name = ''binance'', sr_exchange_2_name = ''okx'',
      sr_price_1 = 100 + percent, sr_price_2 = 100, sr_spread = percent,
      sr_spread_percent = percent\<rparr>"

text \<open>
  A larger run: the four exchanges of \<open>main\<close>, each listing the same 42 linear swap
  symbols, and a feed that quotes every symbol it is asked for at one price per
  exchange. Six pairs of exchanges give 252 tuples.
\<close>

definition full_names :: "exchange_name list" where
  "full_names = [''binance'', ''okx'', ''bybit'', ''bitget'']"

definition full_symbols :: "symbol list" where
  "full_symbols =
     [''BTC/USDT:USDT'', ''ETH/USDT:USDT'', ''SOL/USDT:USDT'', ''XRP/USDT:USDT'',
      ''DOGE/USDT:USDT'', ''ADA/USDT:USDT'', ''AVAX/USDT:USDT'', ''LINK/USDT:USDT'',
      ''DOT/USDT:USDT'', ''LTC/USDT:USDT'', ''BCH/USDT:USDT'', ''TRX/USDT:USDT'',
      ''UNI/USDT:USDT'', ''ATOM/USDT:USDT'', ''ETC/USDT:USDT'', ''FIL/USDT:USDT'',
      ''NEAR/USDT:USDT'', ''APT/USDT:USDT'', ''ARB/USDT:USDT'', ''OP/USDT:USDT'',
      ''SUI/USDT:USDT'', ''INJ/USDT:USDT'', ''TIA/USDT:USDT'', ''SEI/USDT:USDT'',
      ''AAVE/USDT:USDT'', ''MKR/USDT:USDT'', ''SNX/USDT:USDT'', ''CRV/USDT:USDT'',
      ''LDO/USDT:USDT'', ''RUNE/USDT:USDT'', ''GRT/USDT:USDT'', ''ALGO/USDT:USDT'',
      ''XLM/USDT:USDT'', ''EOS/USDT:USDT'', ''XTZ/USDT:USDT'', ''SAND/USDT:USDT'',
      ''MANA/USDT:USDT'', ''AXS/USDT:USDT'', ''GALA/USDT:USDT'', ''CHZ/USDT:USDT'',
      ''ENJ/USDT:USDT'', ''ZEC/USDT:USDT'']"

definition full_ccxtpro :: "exchange_name \<Rightarrow> exchange" where
  "full_ccxtpro exchange_name =
     \<lparr>markets = map (\<lambda>symbol. (symbol, linear_swap_market)) full_symbols\<rparr>"

definition full_order :: "symbol set \<Rightarrow> symbol list" where
  "full_order = in_order_of full_symbols"

definition full_quote :: "exchange_name \<Rightarrow> real" where
  "full_quote exchange_name =
     (if exchange_name = ''binance'' then 101
      else if exchange_name = ''bybit'' then 50
      else 100)"

definition full_env :: cycle_env where
  "full_env =
     \<lparr>watch_tickers = (\<lambda>exchange_name symbols.
          Inr (map (\<lambda>symbol. (symbol, \<lparr>last_price = Some (full_quote exchange_name)\<rparr>))
                 symbols)),
      time_now = 1000\<rparr>"

definition full_cache :: price_table where
  "full_cache =
     store_results
       (map (\<lambda>exchange_name.
               (exchange_name,
                map (\<lambda>symbol. (symbol, \<lparr>last_price = Some (full_quote exchange_name)\<rparr>))
                  full_symbols))
          full_names)
       Map.empty"

definition full_record :: "symbol \<Rightarrow> exchange_name \<Rightarrow> exchange_name \<Rightarrow> spread_record" where
  "full_record symbol exchange_1_name exchange_2_name =
     \<lparr>sr_symbol = symbol,
      sr_exchange_1_name = exchange_1_name, sr_exchange_2_name = exchange_2_name,
      sr_price_1 = full_quote exchange_1_name, sr_price_2 = full_quote exchange_2_name,
      sr_spread = full_quote exchange_1_name - full_quote exchange_2_name,
      sr_spread_percent =
        (full_quote exchange_1_name - full_quote exchange_2_name)
          / full_quote exchange_2_name * 100\<rparr>"

definition full_discovered :: "spread_record list" where
  "full_discovered = all_records full_order full_ccxtpro full_cache full_names"

definition full_high :: "spread_record list" where
  "full_high = filter is_high_spread full_discovered"

section \<open>Properties\<close>

subsection \<open>Spread formulas\<close>

text \<open>
  Claim C3. When \<open>price_2\<close> is zero the spread percent is \<open>0\<close> whatever \<open>price_1\<close> is;
  when \<open>price_2\<close> is not zero it is \<open>(price_1 - price_2) / price_2 * 100\<close>; and in both
  cases the computation returns a number, it never raises \<open>ZeroDivisionError\<close> (nor
  anything else).
\<close>

theorem spread_percent_zero_guard:
  "compute_spread_percent price_1 0 = Inr 0
   \<and> (price_2 \<noteq> 0 \<longrightarrow>
        compute_spread_percent price_1 price_2 = Inr ((price_1 - price_2) / price_2 * 100))
   \<and> (\<forall>e. compute_spread_percent price_1 price_2 \<noteq> Inl e)"
  by (simp add: compute_spread_percent_def compute_spread_def truediv_def)

theorem spread_percent_zero_guard_witness:
  "compute_spread_percent 100 0 = Inr 0
   \<and> compute_spread_percent 100 99 = Inr (100 / 99)
   \<and> compute_spread_percent 100 99 \<noteq> Inl ZeroDivisionError"
  using spread_percent_zero_guard [of 100 99] by simp

lemma percent_swap_eq_iff:
  fixes p1 p2 d :: real
  shows "p1 \<noteq> 0 \<Longrightarrow> p2 \<noteq> 0 \<Longrightarrow>
         (- d / p1 * 100 = - (d / p2 * 100)) \<longleftrightarrow> (d = 0 \<or> p1 = p2)"
  by (auto simp: field_simps)

text \<open>
  Claim C6. For non-zero prices \<open>p1\<close>, \<open>p2\<close>, swapping the two venues negates the spread,
  and the swapped spread percent is \<open>- spread / p1 * 100\<close>: it is normalised by the other
  price. It equals the negated spread percent only when the two prices are equal, so the
  definition is not symmetric in the venue order.
\<close>

theorem spread_swap_asymmetric:
  "p1 \<noteq> 0 \<Longrightarrow> p2 \<noteq> 0 \<Longrightarrow>
     compute_spread p2 p1 = - compute_spread p1 p2
   \<and> compute_spread_percent p2 p1 = Inr (- compute_spread p1 p2 / p1 * 100)
   \<and> compute_spread_percent p1 p2 = Inr (compute_spread p1 p2 / p2 * 100)
   \<and> (- compute_spread p1 p2 / p1 * 100 = - (compute_spread p1 p2 / p2 * 100) \<longleftrightarrow> p1 = p2)"
proof -
  assume nz: "p1 \<noteq> 0" "p2 \<noteq> 0"
  have a: "compute_spread p2 p1 = - compute_spread p1 p2"
    by (simp add: compute_spread_def)
  have b: "compute_spread_percent p2 p1 = Inr (- compute_spread p1 p2 / p1 * 100)"
    using nz by (simp add: compute_spread_percent_def compute_spread_def truediv_def)
  have c: "compute_spread_percent p1 p2 = Inr (compute_spread p1 p2 / p2 * 100)"
    using nz by (simp add: compute_spread_percent_def compute_spread_def truediv_def)
  have d: "(- compute_spread p1 p2 / p1 * 100 = - (compute_spread p1 p2 / p2 * 100)) \<longleftrightarrow> p1 = p2"
    using nz percent_swap_eq_iff [of p1 p2 "compute_spread p1 p2"]
    by (auto simp: compute_spread_def)
  from a b c d show ?thesis by blast
qed

theorem spread_swap_asymmetric_witness:
  "compute_spread 99 100 = - compute_spread 100 99
   \<and> compute_spread_percent 99 100 = Inr (- 1)
   \<and> compute_spread_percent 100 99 = Inr (100 / 99)
   \<and> (- 1 :: real) \<noteq> - (100 / 99)"
  using spread_swap_asymmetric [of 100 99] by (simp add: compute_spread_def)

subsection \<open>Loops, dicts and the closed form of the spread computation\<close>

lemma set_dict_keys: "set (dict_keys ks) = set ks"
  by (induction ks) auto

lemma distinct_dict_keys: "distinct (dict_keys ks)"
  by (induction ks) (auto simp: set_dict_keys)

lemma map_of_tabulate: "k \<in> set ks \<Longrightarrow> map_of (map (\<lambda>k. (k, f k)) ks) k = Some (f k)"
  by (induction ks) auto

lemma getitem_make_exchanges:
  "name \<in> set exchange_names \<Longrightarrow>
     getitem (make_exchanges ccxtpro exchange_names) name = Inr (ccxtpro name)"
  by (simp add: getitem_def make_exchanges_def map_of_tabulate set_dict_keys)

lemma for_each_appends:
  assumes "\<And>x acc. x \<in> set xs \<Longrightarrow> body x acc = Inr (fst acc @ g x, snd acc @ filter P (g x))"
  shows "for_each body xs acc
           = Inr (fst acc @ concat (map g xs), snd acc @ filter P (concat (map g xs)))"
  using assms
proof (induction xs arbitrary: acc)
  case Nil
  then show ?case by simp
next
  case (Cons x xs)
  have step: "body x acc = Inr (fst acc @ g x, snd acc @ filter P (g x))"
    using Cons.prems by simp
  have rest: "for_each body xs (fst acc @ g x, snd acc @ filter P (g x))
      = Inr (fst (fst acc @ g x, snd acc @ filter P (g x)) @ concat (map g xs),
             snd (fst acc @ g x, snd acc @ filter P (g x)) @ filter P (concat (map g xs)))"
    using Cons.prems by (intro Cons.IH) simp
  show ?case
    by (simp add: step rest)
qed

lemma symbol_body_closed:
  "symbol_body tickers_dict e1 e2 symbol acc
     = Inr (fst acc @ spread_record_of tickers_dict e1 e2 symbol,
            snd acc @ filter is_high_spread (spread_record_of tickers_dict e1 e2 symbol))"
  by (simp add: symbol_body_def spread_record_of_def compute_spread_percent_def
        compute_spread_def truediv_def Let_def split: option.splits)

lemma pair_body_closed:
  assumes "i < length exchange_names" "j < length exchange_names"
  shows "pair_body to_list (make_exchanges ccxtpro exchange_names) tickers_dict exchange_names i j acc
     = Inr (fst acc @ pair_records to_list ccxtpro tickers_dict (exchange_names ! i) (exchange_names ! j),
            snd acc @ filter is_high_spread
               (pair_records to_list ccxtpro tickers_dict (exchange_names ! i) (exchange_names ! j)))"
proof -
  have g1: "getitem (make_exchanges ccxtpro exchange_names) (exchange_names ! i)
              = Inr (ccxtpro (exchange_names ! i))"
    using assms by (simp add: getitem_make_exchanges)
  have g2: "getitem (make_exchanges ccxtpro exchange_names) (exchange_names ! j)
              = Inr (ccxtpro (exchange_names ! j))"
    using assms by (simp add: getitem_make_exchanges)
  show ?thesis
    unfolding pair_body_def Let_def g1 g2 pair_records_def
    by (simp add: for_each_appends [where g = "spread_record_of tickers_dict (exchange_names ! i) (exchange_names ! j)" and P = is_high_spread] symbol_body_closed)
qed

lemma compute_spreads_closed:
  "compute_spreads to_list (make_exchanges ccxtpro exchange_names) tickers_dict exchange_names
     = Inr (all_records to_list ccxtpro tickers_dict exchange_names,
            filter is_high_spread (all_records to_list ccxtpro tickers_dict exchange_names))"
proof -
  let ?n = "length exchange_names"
  let ?pr = "\<lambda>i j. pair_records to_list ccxtpro tickers_dict (exchange_names ! i) (exchange_names ! j)"
  have inner: "for_each (pair_body to_list (make_exchanges ccxtpro exchange_names) tickers_dict exchange_names i)
                 [i + 1 ..< ?n] acc
        = Inr (fst acc @ concat (map (?pr i) [i + 1 ..< ?n]),
               snd acc @ filter is_high_spread (concat (map (?pr i) [i + 1 ..< ?n])))"
    if "i < ?n" for i acc
    using that
    by (intro for_each_appends [where g = "?pr i" and P = is_high_spread]) (simp add: pair_body_closed)
  have prem: "(\<lambda>i. for_each (pair_body to_list (make_exchanges ccxtpro exchange_names) tickers_dict exchange_names i) [i + 1 ..< ?n]) x acc
        = Inr (fst acc @ (\<lambda>i. concat (map (?pr i) [i + 1 ..< ?n])) x,
               snd acc @ filter is_high_spread ((\<lambda>i. concat (map (?pr i) [i + 1 ..< ?n])) x))"
    if "x \<in> set [0 ..< ?n]" for x acc
    using that inner [of x acc] by simp
  have outer: "for_each (\<lambda>i. for_each (pair_body to_list (make_exchanges ccxtpro exchange_names) tickers_dict exchange_names i) [i + 1 ..< ?n])
                 [0 ..< ?n] ([], [])
        = Inr (fst ([], []) @ concat (map (\<lambda>i. concat (map (?pr i) [i + 1 ..< ?n])) [0 ..< ?n]),
               snd ([], []) @ filter is_high_spread (concat (map (\<lambda>i. concat (map (?pr i) [i + 1 ..< ?n])) [0 ..< ?n])))"
    using for_each_appends
          [where body = "\<lambda>i. for_each (pair_body to_list (make_exchanges ccxtpro exchange_names) tickers_dict exchange_names i) [i + 1 ..< ?n]"
             and g = "\<lambda>i. concat (map (?pr i) [i + 1 ..< ?n])" and P = is_high_spread
             and xs = "[0 ..< ?n]" and acc = "([], [])", OF prem] by simp
  show ?thesis
    using outer by (simp add: compute_spreads_def all_records_def)
qed

subsection \<open>Writes to the price cache\<close>

lemma stored_store_price:
  "stored (store_price exchange_name symbol ticker cache) s n
     = (if s = symbol \<and> n = exchange_name then Some (last_price ticker) else stored cache s n)"
  by (simp add: stored_def store_price_def dict_get_def split: option.splits)

lemma stored_fold_store_price:
  "stored (fold (\<lambda>(symbol, ticker). store_price exchange_name symbol ticker) ticker_data cache) s n
     = (case map_of (rev (map (\<lambda>(symbol, ticker). ((symbol, exchange_name), last_price ticker))
                           ticker_data)) (s, n) of
          Some price \<Rightarrow> Some price
        | None \<Rightarrow> stored cache s n)"
proof (induction ticker_data arbitrary: cache)
  case Nil
  then show ?case by simp
next
  case (Cons q ticker_data)
  obtain symbol ticker where q: "q = (symbol, ticker)" by (cases q)
  show ?case
    by (simp add: q Cons.IH stored_store_price map_add_def split: option.splits)
qed

lemma stored_store_results:
  "stored (store_results named_results cache) s n
     = (case last_quote (quotes_of named_results) s n of
          Some price \<Rightarrow> Some price
        | None \<Rightarrow> stored cache s n)"
proof (induction named_results arbitrary: cache)
  case Nil
  then show ?case by (simp add: store_results_def quotes_of_def last_quote_def)
next
  case (Cons r named_results)
  obtain exchange_name ticker_data where r: "r = (exchange_name, ticker_data)" by (cases r)
  have unfold_results: "store_results (r # named_results) cache
      = store_results named_results
          (fold (\<lambda>(symbol, ticker). store_price exchange_name symbol ticker) ticker_data cache)"
    by (simp add: store_results_def r)
  have unfold_quotes: "quotes_of (r # named_results)
      = map (\<lambda>(symbol, ticker). ((symbol, exchange_name), last_price ticker)) ticker_data
        @ quotes_of named_results"
    by (simp add: quotes_of_def r)
  show ?case
    unfolding unfold_results unfold_quotes Cons.IH
    by (simp add: last_quote_def stored_fold_store_price map_add_def split: option.splits)
qed

lemma stored_subscribe_tickers:
  assumes "subscribe_tickers exchanges watch cache = Inr cache'"
  shows "stored cache' s n
           = (case last_quote (delivered exchanges watch) s n of
                Some price \<Rightarrow> Some price
              | None \<Rightarrow> stored cache s n)"
  using assms
  by (auto simp: subscribe_tickers_def delivered_def Let_def stored_store_results
           split: sum.splits)

lemma delivered_when_raised:
  "subscribe_tickers exchanges watch cache = Inl e \<Longrightarrow> delivered exchanges watch = []"
  by (auto simp: subscribe_tickers_def delivered_def Let_def split: sum.splits)

lemma price_cache_finish_cycle:
  "price_cache (finish_cycle env discovered high_spread_data st) = price_cache st"
  by (simp add: finish_cycle_def Let_def)

lemma price_cache_cycle:
  "price_cache (fst (cycle to_list exchanges exchange_names env st))
     = (case subscribe_tickers exchanges (watch_tickers env) (price_cache st) of
          Inl e \<Rightarrow> price_cache st
        | Inr cache \<Rightarrow> cache)"
  by (simp add: cycle_def Let_def price_cache_finish_cycle split: sum.splits prod.splits)

lemma stored_cycle:
  "stored (price_cache (fst (cycle to_list exchanges exchange_names env st))) s n
     = (case last_quote (delivered exchanges (watch_tickers env)) s n of
          Some price \<Rightarrow> Some price
        | None \<Rightarrow> stored (price_cache st) s n)"
proof (cases "subscribe_tickers exchanges (watch_tickers env) (price_cache st)")
  case (Inl e)
  then show ?thesis
    by (simp add: price_cache_cycle delivered_when_raised last_quote_def)
next
  case (Inr cache)
  then show ?thesis
    by (simp add: price_cache_cycle stored_subscribe_tickers)
qed

lemma stored_watch_loop:
  "watch_loop to_list exchanges exchange_names envs st = Running st' \<Longrightarrow>
     stored (price_cache st') s n
       = (case last_quote (concat (map (\<lambda>env. delivered exchanges (watch_tickers env)) envs)) s n of
            Some price \<Rightarrow> Some price
          | None \<Rightarrow> stored (price_cache st) s n)"
proof (induction envs arbitrary: st)
  case Nil
  then show ?case by (simp add: last_quote_def)
next
  case (Cons env envs)
  obtain st1 r where c: "cycle to_list exchanges exchange_names env st = (st1, r)"
    by (cases "cycle to_list exchanges exchange_names env st")
  have s1: "stored (price_cache st1) s n
     = (case last_quote (delivered exchanges (watch_tickers env)) s n of
          Some price \<Rightarrow> Some price
        | None \<Rightarrow> stored (price_cache st) s n)"
    using stored_cycle [of to_list exchanges exchange_names env st s n] by (simp add: c)
  obtain st2 where st2: "watch_loop to_list exchanges exchange_names envs st2 = Running st'"
    and p2: "price_cache st2 = price_cache st1"
    using Cons.prems by (auto simp: c split: option.splits if_splits)
  have "stored (price_cache st') s n
       = (case last_quote (concat (map (\<lambda>env. delivered exchanges (watch_tickers env)) envs)) s n of
            Some price \<Rightarrow> Some price
          | None \<Rightarrow> stored (price_cache st2) s n)"
    by (rule Cons.IH [OF st2])
  then show ?case
    by (simp add: p2 s1 last_quote_def map_add_def split: option.splits)
qed

subsection \<open>One cycle and the loop\<close>

lemma gather_raises: "gather ts = Inl e \<Longrightarrow> Inl e \<in> set ts"
  by (induction ts) (auto split: sum.splits)

lemma make_tasks_results:
  "t \<in> set (make_tasks exchanges watch) \<Longrightarrow> \<exists>symbols. snd t = watch (fst t) symbols"
  by (auto simp: make_tasks_def Let_def split: if_splits)

lemma subscribe_tickers_raises:
  assumes "subscribe_tickers exchanges watch cache = Inl e"
  shows "\<exists>exchange_name symbols. watch exchange_name symbols = Inl e"
proof -
  have "gather (map snd (make_tasks exchanges watch)) = Inl e"
    using assms by (auto simp: subscribe_tickers_def Let_def split: sum.splits)
  then have "Inl e \<in> snd ` set (make_tasks exchanges watch)"
    using gather_raises by fastforce
  then obtain t where "t \<in> set (make_tasks exchanges watch)" "snd t = Inl e"
    by auto
  then show ?thesis
    using make_tasks_results by metis
qed

lemma cycle_closed:
  "cycle to_list (make_exchanges ccxtpro exchange_names) exchange_names env st
     = (case subscribe_tickers (make_exchanges ccxtpro exchange_names) (watch_tickers env)
               (price_cache st) of
          Inl e \<Rightarrow> (st, Some e)
        | Inr cache \<Rightarrow>
            (finish_cycle env (all_records to_list ccxtpro cache exchange_names)
               (filter is_high_spread (all_records to_list ccxtpro cache exchange_names))
               (st\<lparr>price_cache := cache\<rparr>), None))"
  by (simp add: cycle_def Let_def compute_spreads_closed split: sum.splits)

lemma queue_finish_cycle:
  "high_spread_queue (finish_cycle env discovered high_spread_data st)
     = (if 250 \<le> length discovered \<and> 3 \<le> length high_spread_data
        then high_spread_queue st @ [take 3 high_spread_data]
        else high_spread_queue st)"
  by (simp add: finish_cycle_def Let_def rank_def list_sort_reverse_def)

lemma cycle_raises_from_feed:
  assumes "cycle to_list (make_exchanges ccxtpro exchange_names) exchange_names env st = (st', Some e)"
  shows "st' = st \<and> (\<exists>exchange_name symbols. watch_tickers env exchange_name symbols = Inl e)"
  using assms subscribe_tickers_raises
  by (fastforce simp: cycle_closed split: sum.splits)

lemma watch_loop_keeps_running:
  assumes "\<forall>env\<in>set envs. feed_raises_only_Exception env"
  shows "\<exists>st'. watch_loop to_list (make_exchanges ccxtpro exchange_names) exchange_names envs st
                 = Running st'"
  using assms
proof (induction envs arbitrary: st)
  case Nil
  then show ?case by simp
next
  case (Cons env envs)
  obtain st1 r where c: "cycle to_list (make_exchanges ccxtpro exchange_names) exchange_names env st = (st1, r)"
    by (cases "cycle to_list (make_exchanges ccxtpro exchange_names) exchange_names env st")
  have rest: "\<exists>st'. watch_loop to_list (make_exchanges ccxtpro exchange_names) exchange_names envs st2
                 = Running st'" for st2
    using Cons.prems by (intro Cons.IH) simp
  show ?case
  proof (cases r)
    case None
    then show ?thesis using rest by (simp add: c)
  next
    case (Some e)
    then have "\<exists>exchange_name symbols. watch_tickers env exchange_name symbols = Inl e"
      using cycle_raises_from_feed c by blast
    then have "is_Exception e"
      using Cons.prems by (auto simp: feed_raises_only_Exception_def)
    then show ?thesis using rest by (simp add: c Some)
  qed
qed

lemma watch_loop_handler:
  assumes "subscribe_tickers exchanges (watch_tickers env) (price_cache st) = Inl e"
      and "is_Exception e"
  shows "watch_loop to_list exchanges exchange_names (env # envs) st
           = watch_loop to_list exchanges exchange_names envs
               (st\<lparr>effects := effects st @ [Print_error (''Error: '' @ str e), Sleep 5]\<rparr>)"
  using assms by (simp add: cycle_def)

lemma batch_ok_take3:
  "3 \<le> length (filter is_high_spread xs) \<Longrightarrow> batch_ok (take 3 (filter is_high_spread xs))"
  by (auto simp: batch_ok_def dest: in_set_takeD)

lemma queue_cycle_ok:
  assumes "\<forall>batch\<in>set (high_spread_queue st). batch_ok batch"
  shows "\<forall>batch\<in>set (high_spread_queue
            (fst (cycle to_list (make_exchanges ccxtpro exchange_names) exchange_names env st))).
           batch_ok batch"
  using assms
  by (auto simp: cycle_closed queue_finish_cycle batch_ok_take3 split: sum.splits)

lemma queue_watch_loop_ok:
  assumes "watch_loop to_list (make_exchanges ccxtpro exchange_names) exchange_names envs st = Running st'"
      and "\<forall>batch\<in>set (high_spread_queue st). batch_ok batch"
  shows "\<forall>batch\<in>set (high_spread_queue st'). batch_ok batch"
  using assms
proof (induction envs arbitrary: st)
  case Nil
  then show ?case by simp
next
  case (Cons env envs)
  obtain st1 r where c: "cycle to_list (make_exchanges ccxtpro exchange_names) exchange_names env st = (st1, r)"
    by (cases "cycle to_list (make_exchanges ccxtpro exchange_names) exchange_names env st")
  have ok1: "\<forall>batch\<in>set (high_spread_queue st1). batch_ok batch"
    using queue_cycle_ok [OF Cons.prems(2), of to_list ccxtpro exchange_names env] by (simp add: c)
  obtain st2 where st2: "watch_loop to_list (make_exchanges ccxtpro exchange_names) exchange_names envs st2 = Running st'"
    and q2: "high_spread_queue st2 = high_spread_queue st1"
    using Cons.prems(1) by (auto simp: c split: option.splits if_splits)
  show ?case
    using Cons.IH [OF st2] ok1 q2 by simp
qed

lemma watch_loop_retries:
  assumes "\<And>cache. subscribe_tickers exchanges (watch_tickers env) cache = Inl e"
      and "is_Exception e"
  shows "watch_loop to_list exchanges exchange_names (replicate n env) st
           = Running (st\<lparr>effects := effects st
                @ concat (replicate n [Print_error (''Error: '' @ str e), Sleep 5])\<rparr>)"
proof (induction n arbitrary: st)
  case 0
  then show ?case by simp
next
  case (Suc n)
  have "watch_loop to_list exchanges exchange_names (replicate (Suc n) env) st
          = watch_loop to_list exchanges exchange_names (replicate n env)
              (st\<lparr>effects := effects st @ [Print_error (''Error: '' @ str e), Sleep 5]\<rparr>)"
    unfolding replicate_Suc by (rule watch_loop_handler [OF assms(1) assms(2)])
  then show ?case
    by (simp add: Suc.IH)
qed

subsection \<open>The head of a ranked list\<close>

lemma sorted_min_front:
  "sorted (map f ys) \<Longrightarrow> \<forall>y\<in>set ys. m \<le> f y \<Longrightarrow>
     ys = filter (\<lambda>y. f y = m) ys @ filter (\<lambda>y. f y \<noteq> m) ys"
proof (induction ys)
  case Nil
  then show ?case by simp
next
  case (Cons y ys)
  have later: "\<forall>z\<in>set ys. f y \<le> f z" and srt: "sorted (map f ys)"
    using Cons.prems(1) by simp_all
  have low: "\<forall>z\<in>set ys. m \<le> f z"
    using Cons.prems(2) by simp
  show ?case
  proof (cases "f y = m")
    case True
    then show ?thesis
      using Cons.IH [OF srt low] by simp
  next
    case False
    then have "m < f y"
      using Cons.prems(2) by (simp add: less_le)
    then have above: "\<forall>z\<in>set ys. f z \<noteq> m"
      using later by fastforce
    have "filter (\<lambda>y. f y = m) ys = []"
      using above by (simp add: filter_empty_conv)
    moreover have "filter (\<lambda>y. f y \<noteq> m) ys = ys"
      using above by (simp add: filter_id_conv)
    ultimately show ?thesis
      using False by simp
  qed
qed

lemma rank_top:
  assumes "\<forall>x\<in>set xs. \<bar>sr_spread_percent x\<bar> \<le> M"
      and "k \<le> length (filter (\<lambda>x. \<bar>sr_spread_percent x\<bar> = M) xs)"
  shows "take k (rank xs) = take k (filter (\<lambda>x. \<bar>sr_spread_percent x\<bar> = M) xs)"
proof -
  let ?f = "\<lambda>x. - \<bar>sr_spread_percent x\<bar>"
  have r: "rank xs = sort_key ?f xs"
    by (simp add: rank_def list_sort_reverse_def)
  have srt: "sorted (map ?f (rank xs))"
    unfolding r by (rule sorted_sort_key)
  have low: "\<forall>y\<in>set (rank xs). - M \<le> ?f y"
    using assms(1) by (simp add: r)
  have front: "filter (\<lambda>y. ?f y = - M) (rank xs) = filter (\<lambda>x. \<bar>sr_spread_percent x\<bar> = M) xs"
    using sort_key_stable [of ?f "- M" xs] by (simp add: r)
  have "rank xs = filter (\<lambda>y. ?f y = - M) (rank xs) @ filter (\<lambda>y. ?f y \<noteq> - M) (rank xs)"
    using srt low by (rule sorted_min_front)
  then have "take k (rank xs)
      = take k (filter (\<lambda>x. \<bar>sr_spread_percent x\<bar> = M) xs
                 @ filter (\<lambda>y. ?f y \<noteq> - M) (rank xs))"
    unfolding front by simp
  then show ?thesis
    using assms(2) by simp
qed

lemma filter_rank: "filter P (rank xs) = rank (filter P xs)"
  by (simp add: rank_def list_sort_reverse_def filter_sort)

subsection \<open>The example inputs, evaluated\<close>

lemma qualifies_in_keys: "qualifies exchange symbol \<Longrightarrow> symbol \<in> fst ` set (markets exchange)"
  by (auto simp: qualifies_def split: option.splits dest: map_of_SomeD intro: rev_image_eqI)

lemma set_linear_swap_symbols:
  "set (linear_swap_symbols exchange) = {symbol. qualifies exchange symbol}"
  using qualifies_in_keys by (auto simp: linear_swap_symbols_def)

lemma lists_set_in_order_of: "S \<subseteq> set ref_list \<Longrightarrow> lists_set (in_order_of ref_list) S"
  by (auto simp: lists_set_def in_order_of_def set_dict_keys distinct_dict_keys)

lemmas market_defs = linear_swap_market_def inverse_swap_market_def spot_market_def
  is_linear_swap_def dict_get_def qualifies_def linear_swap_symbols_def

lemma small_binance: "linear_swap_symbols (small_ccxtpro ''binance'') = [''BTC/USDT:USDT'', ''ETH/USDT:USDT'']"
  by (simp add: small_ccxtpro_def market_defs)

lemma small_okx: "linear_swap_symbols (small_ccxtpro ''okx'') = [''ETH/USDT:USDT'', ''BTC/USDT:USDT'']"
  by (simp add: small_ccxtpro_def market_defs)

lemma small_deribit: "linear_swap_symbols (small_ccxtpro ''deribit'') = [''SOL_USDC-PERPETUAL'']"
  by (simp add: small_ccxtpro_def market_defs)

lemma small_common: "get_common_pairs small_order (small_ccxtpro ''binance'') (small_ccxtpro ''okx'')
   = [''BTC/USDT:USDT'', ''ETH/USDT:USDT'']"
  by (simp add: get_common_pairs_def small_binance small_okx small_order_def in_order_of_def)

lemma small_exchanges: "make_exchanges small_ccxtpro [''binance'', ''okx'']
  = [(''binance'', small_ccxtpro ''binance''), (''okx'', small_ccxtpro ''okx'')]"
  by (simp add: make_exchanges_def)

lemma small_tasks: "make_tasks (make_exchanges small_ccxtpro [''binance'', ''okx'']) (watch_tickers small_env)
  = [(''binance'', Inr [(''BTC/USDT:USDT'', \<lparr>last_price = Some 100\<rparr>),
                    (''ETH/USDT:USDT'', \<lparr>last_price = Some 2000\<rparr>)]),
     (''okx'', Inr [(''BTC/USDT:USDT'', \<lparr>last_price = Some 99\<rparr>)])]"
  by (simp add: small_exchanges make_tasks_def small_binance small_okx small_env_def)

lemma small_subscribe: "subscribe_tickers (make_exchanges small_ccxtpro [''binance'', ''okx'']) (watch_tickers small_env) Map.empty
  = Inr small_cache"
  by (simp add: subscribe_tickers_def small_tasks small_cache_def)

lemma small_prices:
  "get_price small_cache ''BTC/USDT:USDT'' ''binance'' = Some 100"
  "get_price small_cache ''BTC/USDT:USDT'' ''okx'' = Some 99"
  "get_price small_cache ''ETH/USDT:USDT'' ''binance'' = Some 2000"
  "get_price small_cache ''ETH/USDT:USDT'' ''okx'' = None"
  by (simp_all add: small_cache_def store_results_def store_price_def get_price_def dict_get_def)

lemma small_all_records:
  "all_records small_order small_ccxtpro small_cache [''binance'', ''okx''] = [small_record]"
  by (simp add: all_records_def pair_records_def small_common spread_record_of_def small_prices
       small_record_def upt_rec)

lemma small_high: "is_high_spread small_record"
  by (simp add: is_high_spread_def small_record_def)

lemma failing_subscribe:
  "subscribe_tickers (make_exchanges small_ccxtpro [''binance'', ''okx'']) (watch_tickers failing_env) cache
  = Inl (PyException ''okx NetworkError'')"
  by (simp add: subscribe_tickers_def small_exchanges make_tasks_def small_binance small_okx failing_env_def)

lemma small_rank: "rank [tie_record ''A'' 1, tie_record ''B'' (- 2), tie_record ''C'' (- 1)]
   = [tie_record ''B'' (- 2), tie_record ''A'' 1, tie_record ''C'' (- 1)]"
  by (simp add: rank_def list_sort_reverse_def tie_record_def)

lemma later_env_subscribe:
  "subscribe_tickers (make_exchanges small_ccxtpro [''binance'', ''okx'']) (watch_tickers later_env) small_cache
     = Inr later_cache"
  by (simp add: subscribe_tickers_def small_exchanges make_tasks_def small_binance small_okx
        later_env_def later_cache_def)

lemma small_compute:
  "compute_spreads small_order (make_exchanges small_ccxtpro [''binance'', ''okx'']) small_cache
     [''binance'', ''okx''] = Inr ([small_record], [small_record])"
  by (simp add: compute_spreads_closed small_all_records small_high)

lemma initial_state_simps:
  "last_time initial_state = 0"
  "price_cache initial_state = Map.empty"
  "high_spread_queue initial_state = []"
  "effects initial_state = []"
  by (simp_all add: initial_state_def)

lemma stored_initial: "stored (price_cache initial_state) s n = None"
  by (simp add: initial_state_simps stored_def)

lemma small_delivered:
  "delivered (make_exchanges small_ccxtpro [''binance'', ''okx'']) (watch_tickers small_env)
     = [((''BTC/USDT:USDT'', ''binance''), Some 100),
        ((''ETH/USDT:USDT'', ''binance''), Some 2000),
        ((''BTC/USDT:USDT'', ''okx''), Some 99)]"
  by (simp add: delivered_def small_tasks quotes_of_def)

lemma failing_delivered:
  "delivered (make_exchanges small_ccxtpro [''binance'', ''okx'']) (watch_tickers failing_env) = []"
  using failing_subscribe by (rule delivered_when_raised)

lemma later_delivered:
  "delivered (make_exchanges small_ccxtpro [''binance'', ''okx'']) (watch_tickers later_env)
     = [((''BTC/USDT:USDT'', ''binance''), Some 102),
        ((''BTC/USDT:USDT'', ''okx''), Some 98)]"
  by (simp add: delivered_def small_exchanges make_tasks_def small_binance small_okx
        later_env_def quotes_of_def)

lemma small_feeds_ok:
  "feed_raises_only_Exception small_env"
  "feed_raises_only_Exception failing_env"
  "feed_raises_only_Exception later_env"
  by (auto simp: feed_raises_only_Exception_def small_env_def failing_env_def later_env_def
           split: if_splits)

lemma small_stored:
  "stored small_cache ''BTC/USDT:USDT'' ''binance'' = Some (Some 100)"
  "stored small_cache ''ETH/USDT:USDT'' ''binance'' = Some (Some 2000)"
  by (simp_all add: small_cache_def stored_store_results quotes_of_def last_quote_def)

lemma dict_keys_distinct_id: "distinct ks \<Longrightarrow> dict_keys ks = ks"
  by (induction ks) (auto simp: set_dict_keys filter_id_conv)

lemma distinct_full_symbols: "distinct full_symbols"
  by (simp add: full_symbols_def)

lemma length_full_symbols: "length full_symbols = 42"
  by (simp add: full_symbols_def)

lemma take_full_symbols:
  "take 3 full_symbols = [''BTC/USDT:USDT'', ''ETH/USDT:USDT'', ''SOL/USDT:USDT'']"
  by (simp add: full_symbols_def)

lemma full_linear_swap_symbols: "linear_swap_symbols (full_ccxtpro exchange_name) = full_symbols"
proof -
  have "qualifies (full_ccxtpro exchange_name) symbol" if "symbol \<in> set full_symbols" for symbol
    using that
    by (simp add: qualifies_def full_ccxtpro_def map_of_tabulate is_linear_swap_def
          linear_swap_market_def dict_get_def)
  then show ?thesis
    by (simp add: linear_swap_symbols_def full_ccxtpro_def o_def)
qed

lemma full_common_pairs:
  "get_common_pairs full_order (full_ccxtpro exchange_1_name) (full_ccxtpro exchange_2_name)
     = full_symbols"
  by (simp add: get_common_pairs_def full_linear_swap_symbols full_order_def in_order_of_def
        dict_keys_distinct_id distinct_full_symbols)

lemma full_exchanges:
  "make_exchanges full_ccxtpro full_names
     = map (\<lambda>exchange_name. (exchange_name, full_ccxtpro exchange_name)) full_names"
  by (simp add: make_exchanges_def full_names_def)

lemma full_symbols_not_empty: "full_symbols \<noteq> []"
  by (simp add: full_symbols_def)

lemma full_subscribe:
  "subscribe_tickers (make_exchanges full_ccxtpro full_names) (watch_tickers full_env) Map.empty
     = Inr full_cache"
proof -
  have tasks: "make_tasks (make_exchanges full_ccxtpro full_names) (watch_tickers full_env)
      = map (\<lambda>exchange_name.
               (exchange_name,
                Inr (map (\<lambda>symbol. (symbol, \<lparr>last_price = Some (full_quote exchange_name)\<rparr>))
                       full_symbols)))
          full_names"
    unfolding full_exchanges
    by (simp add: make_tasks_def full_linear_swap_symbols full_symbols_not_empty full_env_def
          full_names_def)
  show ?thesis
    unfolding subscribe_tickers_def tasks
    by (simp add: full_cache_def full_names_def)
qed

lemma map_of_rev_unique:
  assumes "(k, v) \<in> set qs" and "\<And>v'. (k, v') \<in> set qs \<Longrightarrow> v' = v"
  shows "map_of (rev qs) k = Some v"
proof -
  have "k \<in> fst ` set (rev qs)"
    using assms(1) by (auto intro: rev_image_eqI)
  then have "map_of (rev qs) k \<noteq> None"
    by (simp add: map_of_eq_None_iff)
  then obtain v' where v': "map_of (rev qs) k = Some v'"
    by auto
  then have "(k, v') \<in> set qs"
    using map_of_SomeD by fastforce
  then show ?thesis
    using assms(2) v' by simp
qed

lemma get_price_stored:
  "get_price cache symbol exchange_name
     = (case stored cache symbol exchange_name of Some price \<Rightarrow> price | None \<Rightarrow> None)"
  by (simp add: get_price_def stored_def dict_get_def split: option.splits)

lemma full_prices:
  assumes "symbol \<in> set full_symbols" and "exchange_name \<in> set full_names"
  shows "get_price full_cache symbol exchange_name = Some (full_quote exchange_name)"
proof -
  let ?nrs = "map (\<lambda>exchange_name.
               (exchange_name,
                map (\<lambda>symbol. (symbol, \<lparr>last_price = Some (full_quote exchange_name)\<rparr>))
                  full_symbols))
          full_names"
  have qs: "set (quotes_of ?nrs)
      = (\<lambda>(s, n). ((s, n), Some (full_quote n))) ` (set full_symbols \<times> set full_names)"
    by (auto simp: quotes_of_def image_iff)
  have "map_of (rev (quotes_of ?nrs)) (symbol, exchange_name) = Some (Some (full_quote exchange_name))"
    using assms by (intro map_of_rev_unique) (auto simp: qs)
  then have "stored full_cache symbol exchange_name = Some (Some (full_quote exchange_name))"
    by (simp add: full_cache_def stored_store_results last_quote_def)
  then show ?thesis
    by (simp add: get_price_stored)
qed

lemma full_quote_not_zero: "full_quote exchange_name \<noteq> 0"
  by (simp add: full_quote_def)

lemma full_spread_record_of:
  assumes "symbol \<in> set full_symbols" and "e1 \<in> set full_names" and "e2 \<in> set full_names"
  shows "spread_record_of full_cache e1 e2 symbol = [full_record symbol e1 e2]"
  using assms by (simp add: spread_record_of_def full_prices full_record_def full_quote_not_zero)

lemma full_pair_records:
  assumes "e1 \<in> set full_names" and "e2 \<in> set full_names"
  shows "pair_records full_order full_ccxtpro full_cache e1 e2
           = map (\<lambda>symbol. full_record symbol e1 e2) full_symbols"
proof -
  have singletons: "map (spread_record_of full_cache e1 e2) full_symbols
          = map (\<lambda>symbol. [full_record symbol e1 e2]) full_symbols"
    using assms by (simp add: full_spread_record_of)
  show ?thesis
    unfolding pair_records_def full_common_pairs singletons by simp
qed

lemma full_discovered_eq:
  "full_discovered
     = map (\<lambda>symbol. full_record symbol ''binance'' ''okx'') full_symbols
     @ map (\<lambda>symbol. full_record symbol ''binance'' ''bybit'') full_symbols
     @ map (\<lambda>symbol. full_record symbol ''binance'' ''bitget'') full_symbols
     @ map (\<lambda>symbol. full_record symbol ''okx'' ''bybit'') full_symbols
     @ map (\<lambda>symbol. full_record symbol ''okx'' ''bitget'') full_symbols
     @ map (\<lambda>symbol. full_record symbol ''bybit'' ''bitget'') full_symbols"
  unfolding full_discovered_def all_records_def
  by (simp add: upt_rec numeral_eq_Suc full_names_def full_pair_records)

lemma full_is_high:
  "is_high_spread (full_record symbol ''binance'' ''okx'')"
  "is_high_spread (full_record symbol ''binance'' ''bybit'')"
  "is_high_spread (full_record symbol ''binance'' ''bitget'')"
  "is_high_spread (full_record symbol ''okx'' ''bybit'')"
  "\<not> is_high_spread (full_record symbol ''okx'' ''bitget'')"
  "is_high_spread (full_record symbol ''bybit'' ''bitget'')"
  by (simp_all add: is_high_spread_def full_record_def full_quote_def)

lemma full_high_eq:
  "full_high
     = map (\<lambda>symbol. full_record symbol ''binance'' ''okx'') full_symbols
     @ map (\<lambda>symbol. full_record symbol ''binance'' ''bybit'') full_symbols
     @ map (\<lambda>symbol. full_record symbol ''binance'' ''bitget'') full_symbols
     @ map (\<lambda>symbol. full_record symbol ''okx'' ''bybit'') full_symbols
     @ map (\<lambda>symbol. full_record symbol ''bybit'' ''bitget'') full_symbols"
  by (simp add: full_high_def full_discovered_eq filter_map o_def full_is_high)

lemma full_lengths: "length full_discovered = 252" "length full_high = 210"
  by (simp_all add: full_discovered_eq full_high_eq length_full_symbols)

lemma full_compute:
  "compute_spreads full_order (make_exchanges full_ccxtpro full_names) full_cache full_names
     = Inr (full_discovered, full_high)"
  by (simp add: compute_spreads_closed full_discovered_def full_high_def)

lemma full_batch:
  "take 3 full_high
     = [full_record ''BTC/USDT:USDT'' ''binance'' ''okx'',
        full_record ''ETH/USDT:USDT'' ''binance'' ''okx'',
        full_record ''SOL/USDT:USDT'' ''binance'' ''okx'']"
  by (simp add: full_high_eq length_full_symbols take_map take_full_symbols)

lemma full_cycle:
  "cycle full_order (make_exchanges full_ccxtpro full_names) full_names full_env initial_state
     = (finish_cycle full_env full_discovered full_high (initial_state\<lparr>price_cache := full_cache\<rparr>),
        None)"
  by (simp add: cycle_closed initial_state_simps full_subscribe full_discovered_def full_high_def)

lemma full_queue:
  "high_spread_queue
     (fst (cycle full_order (make_exchanges full_ccxtpro full_names) full_names full_env
             initial_state))
     = [[full_record ''BTC/USDT:USDT'' ''binance'' ''okx'',
         full_record ''ETH/USDT:USDT'' ''binance'' ''okx'',
         full_record ''SOL/USDT:USDT'' ''binance'' ''okx'']]"
  by (simp add: full_cycle queue_finish_cycle full_lengths full_batch initial_state_simps)


lemma full_percent:
  "\<bar>sr_spread_percent (full_record symbol ''binance'' ''okx'')\<bar> = 1"
  "\<bar>sr_spread_percent (full_record symbol ''binance'' ''bybit'')\<bar> = 102"
  "\<bar>sr_spread_percent (full_record symbol ''binance'' ''bitget'')\<bar> = 1"
  "\<bar>sr_spread_percent (full_record symbol ''okx'' ''bybit'')\<bar> = 100"
  "\<bar>sr_spread_percent (full_record symbol ''bybit'' ''bitget'')\<bar> = 50"
  by (simp_all add: full_record_def full_quote_def)

lemma full_top:
  "take 3 (rank full_high)
     = [full_record ''BTC/USDT:USDT'' ''binance'' ''bybit'',
        full_record ''ETH/USDT:USDT'' ''binance'' ''bybit'',
        full_record ''SOL/USDT:USDT'' ''binance'' ''bybit'']"
proof -
  have best: "filter (\<lambda>x. \<bar>sr_spread_percent x\<bar> = 102) full_high
                = map (\<lambda>symbol. full_record symbol ''binance'' ''bybit'') full_symbols"
    by (simp add: full_high_eq filter_map o_def full_percent)
  have bound: "\<forall>x\<in>set full_high. \<bar>sr_spread_percent x\<bar> \<le> 102"
    by (auto simp: full_high_eq full_percent)
  have "take 3 (rank full_high) = take 3 (filter (\<lambda>x. \<bar>sr_spread_percent x\<bar> = 102) full_high)"
    using bound by (rule rank_top) (simp add: best length_full_symbols)
  then show ?thesis
    by (simp add: best take_map take_full_symbols)
qed

lemma full_common_pairs_any:
  "get_common_pairs to_list (full_ccxtpro exchange_1_name) (full_ccxtpro exchange_2_name)
     = to_list (set full_symbols)"
  by (simp add: get_common_pairs_def full_linear_swap_symbols)

lemma full_listing_length:
  assumes "lists_set to_list (set full_symbols)"
  shows "length (to_list (set full_symbols)) = 42"
proof -
  have s: "set (to_list (set full_symbols)) = set full_symbols"
    using assms unfolding lists_set_def by (rule conjunct1)
  have d: "distinct (to_list (set full_symbols))"
    using assms unfolding lists_set_def by (rule conjunct2)
  have "length (to_list (set full_symbols)) = card (set (to_list (set full_symbols)))"
    using d by (rule distinct_card [symmetric])
  also have "\<dots> = card (set full_symbols)"
    by (simp only: s)
  also have "\<dots> = length full_symbols"
    using distinct_full_symbols by (rule distinct_card)
  finally show ?thesis
    by (simp add: length_full_symbols)
qed

lemma full_pair_records_any:
  assumes "lists_set to_list (set full_symbols)"
      and "e1 \<in> set full_names" and "e2 \<in> set full_names"
  shows "pair_records to_list full_ccxtpro full_cache e1 e2
           = map (\<lambda>symbol. full_record symbol e1 e2) (to_list (set full_symbols))"
proof -
  have "set (to_list (set full_symbols)) = set full_symbols"
    using assms(1) by (simp add: lists_set_def)
  then have singletons: "map (spread_record_of full_cache e1 e2) (to_list (set full_symbols))
          = map (\<lambda>symbol. [full_record symbol e1 e2]) (to_list (set full_symbols))"
    using assms(2,3) by (simp add: full_spread_record_of)
  show ?thesis
    unfolding pair_records_def full_common_pairs_any singletons by simp
qed

lemma full_all_records_any:
  assumes "lists_set to_list (set full_symbols)"
  shows "all_records to_list full_ccxtpro full_cache full_names
     = map (\<lambda>symbol. full_record symbol ''binance'' ''okx'') (to_list (set full_symbols))
     @ map (\<lambda>symbol. full_record symbol ''binance'' ''bybit'') (to_list (set full_symbols))
     @ map (\<lambda>symbol. full_record symbol ''binance'' ''bitget'') (to_list (set full_symbols))
     @ map (\<lambda>symbol. full_record symbol ''okx'' ''bybit'') (to_list (set full_symbols))
     @ map (\<lambda>symbol. full_record symbol ''okx'' ''bitget'') (to_list (set full_symbols))
     @ map (\<lambda>symbol. full_record symbol ''bybit'' ''bitget'') (to_list (set full_symbols))"
  unfolding all_records_def
  by (simp add: upt_rec numeral_eq_Suc full_names_def full_pair_records_any [OF assms])

text \<open>
  The larger run under any listing of the set of symbols: the cycle puts one batch of three
  binance/okx tuples, all with a spread percent of 1, while the three top-ranked
  high-spread tuples are binance/bybit tuples with a spread percent of 102.
\<close>

lemma first_three_not_top_three_any_listing:
  assumes "lists_set to_list (set full_symbols)"
  shows "\<exists>st batch.
           cycle to_list (make_exchanges full_ccxtpro full_names) full_names full_env initial_state
             = (st, None)
         \<and> high_spread_queue st = [batch]
         \<and> length batch = 3
         \<and> (\<forall>x\<in>set batch. sr_exchange_2_name x = ''okx'' \<and> sr_spread_percent x = 1)
         \<and> length (take 3 (rank (filter is_high_spread
               (all_records to_list full_ccxtpro full_cache full_names)))) = 3
         \<and> (\<forall>x\<in>set (take 3 (rank (filter is_high_spread
               (all_records to_list full_ccxtpro full_cache full_names)))).
               sr_exchange_2_name x = ''bybit'' \<and> sr_spread_percent x = 102)"
proof -
  let ?L = "to_list (set full_symbols)"
  let ?D = "all_records to_list full_ccxtpro full_cache full_names"
  let ?H = "filter is_high_spread ?D"
  have len: "length ?L = 42"
    using assms by (rule full_listing_length)
  have H: "?H = map (\<lambda>symbol. full_record symbol ''binance'' ''okx'') ?L
     @ map (\<lambda>symbol. full_record symbol ''binance'' ''bybit'') ?L
     @ map (\<lambda>symbol. full_record symbol ''binance'' ''bitget'') ?L
     @ map (\<lambda>symbol. full_record symbol ''okx'' ''bybit'') ?L
     @ map (\<lambda>symbol. full_record symbol ''bybit'' ''bitget'') ?L"
    by (simp add: full_all_records_any [OF assms] filter_map o_def full_is_high)
  have lenD: "length ?D = 252" and lenH: "length ?H = 210"
    unfolding H by (simp_all add: full_all_records_any [OF assms] len)
  have batch: "take 3 ?H = map (\<lambda>symbol. full_record symbol ''binance'' ''okx'') (take 3 ?L)"
    unfolding H by (simp add: len take_map)
  have cyc: "cycle to_list (make_exchanges full_ccxtpro full_names) full_names full_env initial_state
     = (finish_cycle full_env ?D ?H (initial_state\<lparr>price_cache := full_cache\<rparr>), None)"
    by (simp add: cycle_closed initial_state_simps full_subscribe)
  have queue: "high_spread_queue (finish_cycle full_env ?D ?H (initial_state\<lparr>price_cache := full_cache\<rparr>))
          = [take 3 ?H]"
    by (simp add: queue_finish_cycle lenD lenH initial_state_simps)
  have b3: "length (take 3 ?H) = 3"
    by (simp add: lenH)
  have bprop: "\<forall>x\<in>set (take 3 ?H). sr_exchange_2_name x = ''okx'' \<and> sr_spread_percent x = 1"
    unfolding batch by (auto simp: full_record_def full_quote_def)
  have best: "filter (\<lambda>x. \<bar>sr_spread_percent x\<bar> = 102) ?H
                = map (\<lambda>symbol. full_record symbol ''binance'' ''bybit'') ?L"
    unfolding H by (simp add: filter_map o_def full_percent)
  have bound: "\<forall>x\<in>set ?H. \<bar>sr_spread_percent x\<bar> \<le> 102"
    unfolding H by (auto simp: full_percent)
  have enough: "3 \<le> length (filter (\<lambda>x. \<bar>sr_spread_percent x\<bar> = 102) ?H)"
    unfolding best by (simp add: len)
  have top: "take 3 (rank ?H) = take 3 (filter (\<lambda>x. \<bar>sr_spread_percent x\<bar> = 102) ?H)"
    using bound enough by (rule rank_top)
  have t3: "length (take 3 (rank ?H)) = 3"
    unfolding top best by (simp add: len)
  have tprop: "\<forall>x\<in>set (take 3 (rank ?H)). sr_exchange_2_name x = ''bybit'' \<and> sr_spread_percent x = 102"
    unfolding top best by (auto simp: take_map full_record_def full_quote_def)
  show ?thesis
    using cyc queue b3 bprop t3 tprop by blast
qed

subsection \<open>Common pairs and ranking\<close>

text \<open>
  Claim C5. When Python lists every element of the intersection once, the common pairs of
  two exchanges are, as a set, exactly the symbols that both catalogs hold as linear swap
  markets (\<open>swap\<close> and \<open>linear\<close> both truthy): a symbol is in the result if and only if
  it qualifies on both, no symbol occurs twice, and two catalogs without a common symbol
  give the empty list.
\<close>

theorem common_pairs_is_intersection:
  assumes "lists_set to_list
             ({symbol. qualifies exchange_1 symbol} \<inter> {symbol. qualifies exchange_2 symbol})"
  shows "set (get_common_pairs to_list exchange_1 exchange_2)
           = {symbol. qualifies exchange_1 symbol} \<inter> {symbol. qualifies exchange_2 symbol}
       \<and> distinct (get_common_pairs to_list exchange_1 exchange_2)
       \<and> (symbol \<in> set (get_common_pairs to_list exchange_1 exchange_2)
            \<longleftrightarrow> qualifies exchange_1 symbol \<and> qualifies exchange_2 symbol)
       \<and> (fst ` set (markets exchange_1) \<inter> fst ` set (markets exchange_2) = {}
            \<longrightarrow> get_common_pairs to_list exchange_1 exchange_2 = [])"
proof -
  let ?S = "{symbol. qualifies exchange_1 symbol} \<inter> {symbol. qualifies exchange_2 symbol}"
  have eq: "get_common_pairs to_list exchange_1 exchange_2 = to_list ?S"
    by (simp add: get_common_pairs_def set_linear_swap_symbols)
  have s: "set (to_list ?S) = ?S"
    using assms unfolding lists_set_def by (rule conjunct1)
  have d: "distinct (to_list ?S)"
    using assms unfolding lists_set_def by (rule conjunct2)
  have e: "?S = {}"
    if dis: "fst ` set (markets exchange_1) \<inter> fst ` set (markets exchange_2) = {}"
  proof (rule ccontr)
    assume "?S \<noteq> {}"
    then obtain x where "x \<in> ?S" by (auto simp only: ex_in_conv [symmetric])
    then have "qualifies exchange_1 x" and "qualifies exchange_2 x" by simp_all
    then have "x \<in> fst ` set (markets exchange_1) \<inter> fst ` set (markets exchange_2)"
      by (intro IntI qualifies_in_keys)
    then show False
      unfolding dis by simp
  qed
  have m: "symbol \<in> set (to_list ?S)
             \<longleftrightarrow> qualifies exchange_1 symbol \<and> qualifies exchange_2 symbol"
    unfolding s by simp
  have f: "fst ` set (markets exchange_1) \<inter> fst ` set (markets exchange_2) = {}
             \<longrightarrow> to_list ?S = []"
  proof
    assume "fst ` set (markets exchange_1) \<inter> fst ` set (markets exchange_2) = {}"
    then have emp: "?S = {}" by (rule e)
    have "set (to_list ?S) = ?S" by (rule s)
    also have "\<dots> = {}" by (rule emp)
    finally have "set (to_list ?S) = {}" .
    then show "to_list ?S = []" by simp
  qed
  show ?thesis
    unfolding eq using s d m f by (intro conjI)
qed


theorem common_pairs_is_intersection_witness:
  "lists_set small_order
     ({symbol. qualifies (small_ccxtpro ''binance'') symbol}
        \<inter> {symbol. qualifies (small_ccxtpro ''okx'') symbol})
   \<and> set (get_common_pairs small_order (small_ccxtpro ''binance'') (small_ccxtpro ''okx''))
       = {''BTC/USDT:USDT'', ''ETH/USDT:USDT''}
   \<and> distinct (get_common_pairs small_order (small_ccxtpro ''binance'') (small_ccxtpro ''okx''))
   \<and> fst ` set (markets (small_ccxtpro ''binance''))
        \<inter> fst ` set (markets (small_ccxtpro ''deribit'')) = {}
   \<and> get_common_pairs small_order (small_ccxtpro ''binance'') (small_ccxtpro ''deribit'') = []"
proof -
  let ?b = "small_ccxtpro ''binance''" and ?o = "small_ccxtpro ''okx''"
  let ?d = "small_ccxtpro ''deribit''"
  have qb: "{symbol. qualifies ?b symbol} = {''BTC/USDT:USDT'', ''ETH/USDT:USDT''}"
    using set_linear_swap_symbols [of ?b] by (simp add: small_binance)
  have qo: "{symbol. qualifies ?o symbol} = {''ETH/USDT:USDT'', ''BTC/USDT:USDT''}"
    using set_linear_swap_symbols [of ?o] by (simp add: small_okx)
  have qd: "{symbol. qualifies ?d symbol} = {''SOL_USDC-PERPETUAL''}"
    using set_linear_swap_symbols [of ?d] by (simp add: small_deribit)
  have l1: "lists_set small_order ({symbol. qualifies ?b symbol} \<inter> {symbol. qualifies ?o symbol})"
    unfolding qb qo small_order_def by (rule lists_set_in_order_of) auto
  have l2: "lists_set small_order ({symbol. qualifies ?b symbol} \<inter> {symbol. qualifies ?d symbol})"
    unfolding qb qd small_order_def by (rule lists_set_in_order_of) auto
  have disjoint: "fst ` set (markets ?b) \<inter> fst ` set (markets ?d) = {}"
    by (simp add: small_ccxtpro_def)
  have s1: "set (get_common_pairs small_order ?b ?o) = {''BTC/USDT:USDT'', ''ETH/USDT:USDT''}"
    using common_pairs_is_intersection [OF l1, THEN conjunct1] by (auto simp: qb qo)
  have d1: "distinct (get_common_pairs small_order ?b ?o)"
    using common_pairs_is_intersection [OF l1] by (rule conjunct2 [THEN conjunct1])
  have e2: "get_common_pairs small_order ?b ?d = []"
    using common_pairs_is_intersection [OF l2] disjoint by blast
  show ?thesis
    using l1 s1 d1 disjoint e2 by (intro conjI)
qed

text \<open>
  Claim C4. The rank step sorts the tuples by descending absolute spread percent, keeps
  exactly the tuples it was given, and is stable: for every value \<open>k\<close>, the tuples whose
  absolute spread percent is \<open>k\<close> come out in the order in which they went in (their
  discovery order). Ranking a ranked list again changes nothing.
\<close>

theorem rank_sorted_stable:
  "sorted_wrt (\<lambda>x y. \<bar>sr_spread_percent x\<bar> \<ge> \<bar>sr_spread_percent y\<bar>) (rank spread_data)
   \<and> mset (rank spread_data) = mset spread_data
   \<and> (\<forall>k. filter (\<lambda>x. \<bar>sr_spread_percent x\<bar> = k) (rank spread_data)
          = filter (\<lambda>x. \<bar>sr_spread_percent x\<bar> = k) spread_data)
   \<and> rank (rank spread_data) = rank spread_data"
proof -
  let ?f = "\<lambda>x. - \<bar>sr_spread_percent x\<bar>"
  have r: "rank spread_data = sort_key ?f spread_data"
    by (simp add: rank_def list_sort_reverse_def)
  have srt: "sorted (map ?f (sort_key ?f spread_data))"
    by (rule sorted_sort_key)
  then have a: "sorted_wrt (\<lambda>x y. \<bar>sr_spread_percent x\<bar> \<ge> \<bar>sr_spread_percent y\<bar>)
                  (rank spread_data)"
    by (simp add: r sorted_map)
  have b: "mset (rank spread_data) = mset spread_data"
    by (simp add: r)
  have c: "filter (\<lambda>x. \<bar>sr_spread_percent x\<bar> = k) (rank spread_data)
          = filter (\<lambda>x. \<bar>sr_spread_percent x\<bar> = k) spread_data" for k
    using sort_key_stable [of ?f "- k" spread_data] by (simp add: r)
  have d: "rank (rank spread_data) = rank spread_data"
    using sort_key_id_if_sorted [OF srt] by (simp add: rank_def list_sort_reverse_def)
  show ?thesis using a b c d by (intro conjI allI)
qed


theorem rank_sorted_stable_witness:
  "rank [tie_record ''A'' 1, tie_record ''B'' (- 2), tie_record ''C'' (- 1)]
     = [tie_record ''B'' (- 2), tie_record ''A'' 1, tie_record ''C'' (- 1)]
   \<and> filter (\<lambda>x. \<bar>sr_spread_percent x\<bar> = 1)
        (rank [tie_record ''A'' 1, tie_record ''B'' (- 2), tie_record ''C'' (- 1)])
     = [tie_record ''A'' 1, tie_record ''C'' (- 1)]"
proof -
  let ?L = "[tie_record ''A'' 1, tie_record ''B'' (- 2), tie_record ''C'' (- 1)]"
  have "\<forall>k. filter (\<lambda>x. \<bar>sr_spread_percent x\<bar> = k) (rank ?L)
             = filter (\<lambda>x. \<bar>sr_spread_percent x\<bar> = k) ?L"
    using rank_sorted_stable [of ?L] by (rule conjunct2 [THEN conjunct2, THEN conjunct1])
  then have "filter (\<lambda>x. \<bar>sr_spread_percent x\<bar> = 1) (rank ?L)
             = filter (\<lambda>x. \<bar>sr_spread_percent x\<bar> = 1) ?L"
    by (rule spec)
  also have "\<dots> = [tie_record ''A'' 1, tie_record ''C'' (- 1)]"
    by (simp add: tie_record_def)
  finally show ?thesis
    using small_rank by (intro conjI)
qed

subsection \<open>Spread records and the gate\<close>

text \<open>
  Claim C7. For one symbol and one pair of exchanges: when the snapshot has no price on
  one of the two exchanges (the key is missing or its value is \<open>None\<close>) the loop body
  leaves both lists as they are and raises nothing; when both prices are there it appends
  exactly one tuple, with these two prices. For the whole computation of a cycle: it
  returns without raising, and every tuple of the list carries the two prices that the
  snapshot holds for its symbol on its two exchanges.
\<close>

theorem missing_price_skips_pair:
  "(get_price tickers_dict symbol exchange_1_name = None
      \<or> get_price tickers_dict symbol exchange_2_name = None
     \<longrightarrow> symbol_body tickers_dict exchange_1_name exchange_2_name symbol acc = Inr acc)
   \<and> (get_price tickers_dict symbol exchange_1_name = Some price_1
        \<and> get_price tickers_dict symbol exchange_2_name = Some price_2
     \<longrightarrow> (\<exists>x. symbol_body tickers_dict exchange_1_name exchange_2_name symbol acc
                  = Inr (fst acc @ [x], if is_high_spread x then snd acc @ [x] else snd acc)
              \<and> sr_symbol x = symbol
              \<and> sr_exchange_1_name x = exchange_1_name \<and> sr_exchange_2_name x = exchange_2_name
              \<and> sr_price_1 x = price_1 \<and> sr_price_2 x = price_2))
   \<and> (\<exists>discovered high_spread_data.
         compute_spreads to_list (make_exchanges ccxtpro exchange_names) tickers_dict exchange_names
           = Inr (discovered, high_spread_data)
         \<and> (\<forall>x\<in>set discovered.
               get_price tickers_dict (sr_symbol x) (sr_exchange_1_name x) = Some (sr_price_1 x)
               \<and> get_price tickers_dict (sr_symbol x) (sr_exchange_2_name x) = Some (sr_price_2 x)))"
proof -
  have skip: "get_price tickers_dict symbol exchange_1_name = None
        \<or> get_price tickers_dict symbol exchange_2_name = None
     \<longrightarrow> symbol_body tickers_dict exchange_1_name exchange_2_name symbol acc = Inr acc"
    by (cases acc) (auto simp: symbol_body_closed spread_record_of_def split: option.splits)
  have append: "get_price tickers_dict symbol exchange_1_name = Some price_1
        \<and> get_price tickers_dict symbol exchange_2_name = Some price_2
     \<longrightarrow> (\<exists>x. symbol_body tickers_dict exchange_1_name exchange_2_name symbol acc
                  = Inr (fst acc @ [x], if is_high_spread x then snd acc @ [x] else snd acc)
              \<and> sr_symbol x = symbol
              \<and> sr_exchange_1_name x = exchange_1_name \<and> sr_exchange_2_name x = exchange_2_name
              \<and> sr_price_1 x = price_1 \<and> sr_price_2 x = price_2)"
    by (simp add: symbol_body_closed spread_record_of_def)
  have one: "get_price tickers_dict (sr_symbol x) (sr_exchange_1_name x) = Some (sr_price_1 x)
           \<and> get_price tickers_dict (sr_symbol x) (sr_exchange_2_name x) = Some (sr_price_2 x)"
    if "x \<in> set (spread_record_of tickers_dict e1 e2 s)" for x e1 e2 s
    using that by (auto simp: spread_record_of_def split: option.splits)
  have all: "get_price tickers_dict (sr_symbol x) (sr_exchange_1_name x) = Some (sr_price_1 x)
           \<and> get_price tickers_dict (sr_symbol x) (sr_exchange_2_name x) = Some (sr_price_2 x)"
    if mem: "x \<in> set (all_records to_list ccxtpro tickers_dict exchange_names)" for x
  proof -
    obtain e1 e2 s where "x \<in> set (spread_record_of tickers_dict e1 e2 s)"
      using mem by (auto simp: all_records_def pair_records_def)
    then show ?thesis by (rule one)
  qed
  have whole: "\<exists>discovered high_spread_data.
         compute_spreads to_list (make_exchanges ccxtpro exchange_names) tickers_dict exchange_names
           = Inr (discovered, high_spread_data)
         \<and> (\<forall>x\<in>set discovered.
               get_price tickers_dict (sr_symbol x) (sr_exchange_1_name x) = Some (sr_price_1 x)
               \<and> get_price tickers_dict (sr_symbol x) (sr_exchange_2_name x) = Some (sr_price_2 x))"
    using all by (simp add: compute_spreads_closed)
  show ?thesis
    using skip append whole by (intro conjI)
qed


theorem missing_price_skips_pair_witness:
  "get_price small_cache ''ETH/USDT:USDT'' ''okx'' = None
   \<and> symbol_body small_cache ''binance'' ''okx'' ''ETH/USDT:USDT'' ([], []) = Inr ([], [])
   \<and> get_price small_cache ''BTC/USDT:USDT'' ''binance'' = Some 100
   \<and> get_price small_cache ''BTC/USDT:USDT'' ''okx'' = Some 99
   \<and> symbol_body small_cache ''binance'' ''okx'' ''BTC/USDT:USDT'' ([], [])
       = Inr ([small_record], [small_record])
   \<and> compute_spreads small_order (make_exchanges small_ccxtpro [''binance'', ''okx'']) small_cache
        [''binance'', ''okx''] = Inr ([small_record], [small_record])"
proof -
  have a: "symbol_body small_cache ''binance'' ''okx'' ''ETH/USDT:USDT'' ([], []) = Inr ([], [])"
    using missing_price_skips_pair [of small_cache "''ETH/USDT:USDT''" "''binance''" "''okx''" "([], [])"]
    by (simp add: small_prices)
  have b: "symbol_body small_cache ''binance'' ''okx'' ''BTC/USDT:USDT'' ([], [])
       = Inr ([small_record], [small_record])"
    by (simp add: symbol_body_closed spread_record_of_def small_prices small_record_def
          is_high_spread_def)
  show ?thesis
    using a b small_compute by (simp add: small_prices)
qed

text \<open>
  Claim C2. A cycle whose ingestion and spread computation return puts one batch on the
  queue if and only if the sorted list has at least 250 tuples and the high-spread list at
  least 3; otherwise the queue stays as it was. In particular 249 tuples with 5
  high-spread ones put nothing, and 250 tuples with 3 high-spread ones put these three.
  A cycle that ends with an exception puts nothing.
\<close>

theorem significance_gate:
  "(subscribe_tickers exchanges (watch_tickers env) (price_cache st) = Inr cache
      \<and> compute_spreads to_list exchanges cache exchange_names = Inr (discovered, high_spread_data)
     \<longrightarrow> cycle to_list exchanges exchange_names env st
           = (finish_cycle env discovered high_spread_data (st\<lparr>price_cache := cache\<rparr>), None)
         \<and> high_spread_queue (fst (cycle to_list exchanges exchange_names env st))
           = (if 250 \<le> length (rank discovered) \<and> 3 \<le> length high_spread_data
              then high_spread_queue st @ [take 3 high_spread_data]
              else high_spread_queue st)
         \<and> ((\<exists>batch. high_spread_queue (fst (cycle to_list exchanges exchange_names env st))
                        = high_spread_queue st @ [batch])
              \<longleftrightarrow> 250 \<le> length (rank discovered) \<and> 3 \<le> length high_spread_data)
         \<and> (length (rank discovered) = 249 \<and> length high_spread_data = 5
              \<longrightarrow> high_spread_queue (fst (cycle to_list exchanges exchange_names env st))
                    = high_spread_queue st)
         \<and> (length (rank discovered) = 250 \<and> length high_spread_data = 3
              \<longrightarrow> high_spread_queue (fst (cycle to_list exchanges exchange_names env st))
                    = high_spread_queue st @ [high_spread_data]))
   \<and> (snd (cycle to_list exchanges exchange_names env st) \<noteq> None
        \<longrightarrow> high_spread_queue (fst (cycle to_list exchanges exchange_names env st))
              = high_spread_queue st)"
proof -
  have completes: "cycle to_list exchanges exchange_names env st
           = (finish_cycle env discovered high_spread_data (st\<lparr>price_cache := cache\<rparr>), None)"
    if "subscribe_tickers exchanges (watch_tickers env) (price_cache st) = Inr cache"
       "compute_spreads to_list exchanges cache exchange_names = Inr (discovered, high_spread_data)"
    using that by (simp add: cycle_def)
  have len: "length (rank discovered) = length discovered"
    by (simp add: rank_def list_sort_reverse_def)
  have raised: "high_spread_queue (fst (cycle to_list exchanges exchange_names env st))
              = high_spread_queue st"
    if "snd (cycle to_list exchanges exchange_names env st) \<noteq> None"
    using that by (auto simp: cycle_def Let_def split: sum.splits prod.splits)
  show ?thesis
    using raised by (auto simp: completes queue_finish_cycle len)
qed


theorem significance_gate_witness:
  "subscribe_tickers (make_exchanges small_ccxtpro [''binance'', ''okx''])
      (watch_tickers small_env) (price_cache initial_state) = Inr small_cache
   \<and> compute_spreads small_order (make_exchanges small_ccxtpro [''binance'', ''okx'']) small_cache
        [''binance'', ''okx''] = Inr ([small_record], [small_record])
   \<and> high_spread_queue
        (fst (cycle small_order (make_exchanges small_ccxtpro [''binance'', ''okx''])
                [''binance'', ''okx''] small_env initial_state)) = []
   \<and> snd (cycle small_order (make_exchanges small_ccxtpro [''binance'', ''okx''])
                [''binance'', ''okx''] failing_env initial_state) \<noteq> None
   \<and> high_spread_queue
        (fst (cycle small_order (make_exchanges small_ccxtpro [''binance'', ''okx''])
                [''binance'', ''okx''] failing_env initial_state)) = []
   \<and> subscribe_tickers (make_exchanges full_ccxtpro full_names) (watch_tickers full_env)
        (price_cache initial_state) = Inr full_cache
   \<and> compute_spreads full_order (make_exchanges full_ccxtpro full_names) full_cache full_names
       = Inr (full_discovered, full_high)
   \<and> length (rank full_discovered) = 252
   \<and> length full_high = 210
   \<and> high_spread_queue
        (fst (cycle full_order (make_exchanges full_ccxtpro full_names) full_names full_env
                initial_state)) = [take 3 full_high]"
proof -
  let ?X = "make_exchanges small_ccxtpro [''binance'', ''okx'']"
  let ?N = "[''binance'', ''okx'']"
  have s: "subscribe_tickers ?X (watch_tickers small_env) (price_cache initial_state)
             = Inr small_cache"
    by (simp add: initial_state_simps small_subscribe)
  have f: "snd (cycle small_order ?X ?N failing_env initial_state) \<noteq> None"
    by (simp add: cycle_def failing_subscribe)
  have "high_spread_queue (fst (cycle small_order ?X ?N small_env initial_state))
          = (if 250 \<le> length (rank [small_record]) \<and> 3 \<le> length [small_record]
             then high_spread_queue initial_state @ [take 3 [small_record]]
             else high_spread_queue initial_state)"
    using significance_gate [THEN conjunct1, THEN mp, OF conjI, OF s small_compute]
    by (rule conjunct2 [THEN conjunct1])
  then have q1: "high_spread_queue (fst (cycle small_order ?X ?N small_env initial_state)) = []"
    by (simp add: initial_state_simps)
  have "high_spread_queue (fst (cycle small_order ?X ?N failing_env initial_state))
          = high_spread_queue initial_state"
    using significance_gate [THEN conjunct2, THEN mp, OF f] .
  then have q2: "high_spread_queue (fst (cycle small_order ?X ?N failing_env initial_state)) = []"
    by (simp add: initial_state_simps)
  have fs: "subscribe_tickers (make_exchanges full_ccxtpro full_names) (watch_tickers full_env)
        (price_cache initial_state) = Inr full_cache"
    by (simp add: initial_state_simps full_subscribe)
  have fl: "length (rank full_discovered) = 252"
    by (simp add: rank_def list_sort_reverse_def full_lengths)
  have "high_spread_queue
          (fst (cycle full_order (make_exchanges full_ccxtpro full_names) full_names full_env
                  initial_state))
          = (if 250 \<le> length (rank full_discovered) \<and> 3 \<le> length full_high
             then high_spread_queue initial_state @ [take 3 full_high]
             else high_spread_queue initial_state)"
    using significance_gate [THEN conjunct1, THEN mp, OF conjI, OF fs full_compute]
    by (rule conjunct2 [THEN conjunct1])
  then have q3: "high_spread_queue
          (fst (cycle full_order (make_exchanges full_ccxtpro full_names) full_names full_env
                  initial_state)) = [take 3 full_high]"
    by (simp add: fl full_lengths initial_state_simps)
  show ?thesis
    using s small_compute q1 f q2 fs full_compute fl full_lengths(2) q3 by (intro conjI)
qed

subsection \<open>Price cache, resilience and batches\<close>

text \<open>
  Claim C8. An ingestion step that returns only adds or overwrites entries of the price
  cache: an entry that was there before is still there, and every entry holds the price
  of the last quote that the step took delivery of for its key, or what it held before
  when there was no such quote. Over a run of the loop from the empty cache, the entry for
  a symbol and an exchange exists exactly when some cycle took delivery of a quote for
  that key, and it holds the price of the last of these quotes. (The quotes of a cycle
  whose \<open>gather\<close> raises are not taken delivery of: the loops of lines 40--44 do not
  run.)
\<close>

theorem price_cache_last_write_wins:
  "(subscribe_tickers exchanges watch cache = Inr cache' \<longrightarrow>
       (stored cache symbol exchange_name \<noteq> None \<longrightarrow> stored cache' symbol exchange_name \<noteq> None)
       \<and> stored cache' symbol exchange_name
           = (case last_quote (delivered exchanges watch) symbol exchange_name of
                Some price \<Rightarrow> Some price
              | None \<Rightarrow> stored cache symbol exchange_name))
   \<and> (watch_all_tickers ccxtpro to_list exchange_names envs = Running st \<longrightarrow>
        stored (price_cache st) symbol exchange_name
          = last_quote
              (concat (map (\<lambda>env. delivered (make_exchanges ccxtpro exchange_names)
                                     (watch_tickers env)) envs))
              symbol exchange_name)"
proof -
  have step: "stored cache' symbol exchange_name
           = (case last_quote (delivered exchanges watch) symbol exchange_name of
                Some price \<Rightarrow> Some price
              | None \<Rightarrow> stored cache symbol exchange_name)"
    if "subscribe_tickers exchanges watch cache = Inr cache'"
    using that by (rule stored_subscribe_tickers)
  have keeps: "stored cache' symbol exchange_name \<noteq> None"
    if "subscribe_tickers exchanges watch cache = Inr cache'"
       "stored cache symbol exchange_name \<noteq> None"
    using that step by (simp split: option.splits)
  have run: "stored (price_cache st) symbol exchange_name
          = last_quote
              (concat (map (\<lambda>env. delivered (make_exchanges ccxtpro exchange_names)
                                     (watch_tickers env)) envs))
              symbol exchange_name"
    if "watch_all_tickers ccxtpro to_list exchange_names envs = Running st"
    using stored_watch_loop [OF that [unfolded watch_all_tickers_def], of symbol exchange_name]
    by (simp add: stored_initial split: option.splits)
  show ?thesis
    using step keeps run by (intro conjI impI)
qed

theorem price_cache_last_write_wins_witness:
  "subscribe_tickers (make_exchanges small_ccxtpro [''binance'', ''okx''])
       (watch_tickers later_env) small_cache = Inr later_cache
   \<and> stored small_cache ''BTC/USDT:USDT'' ''binance'' = Some (Some 100)
   \<and> stored later_cache ''BTC/USDT:USDT'' ''binance'' = Some (Some 102)
   \<and> stored later_cache ''ETH/USDT:USDT'' ''binance'' = Some (Some 2000)
   \<and> (\<exists>st. watch_all_tickers small_ccxtpro small_order [''binance'', ''okx'']
               [small_env, failing_env, later_env] = Running st
           \<and> stored (price_cache st) ''BTC/USDT:USDT'' ''binance'' = Some (Some 102)
           \<and> stored (price_cache st) ''ETH/USDT:USDT'' ''binance'' = Some (Some 2000)
           \<and> stored (price_cache st) ''ETH/USDT:USDT'' ''okx'' = None)"
proof -
  let ?X = "make_exchanges small_ccxtpro [''binance'', ''okx'']"
  note step = price_cache_last_write_wins [THEN conjunct1, THEN mp, OF later_env_subscribe,
      THEN conjunct2]
  have a: "stored later_cache ''BTC/USDT:USDT'' ''binance'' = Some (Some 102)"
    using step [of "''BTC/USDT:USDT''" "''binance''"]
    by (simp add: later_delivered last_quote_def)
  have b: "stored later_cache ''ETH/USDT:USDT'' ''binance'' = Some (Some 2000)"
    using step [of "''ETH/USDT:USDT''" "''binance''"]
    by (simp add: later_delivered last_quote_def small_stored)
  obtain st where run: "watch_all_tickers small_ccxtpro small_order [''binance'', ''okx'']
               [small_env, failing_env, later_env] = Running st"
    using watch_loop_keeps_running [of "[small_env, failing_env, later_env]" small_order
        small_ccxtpro "[''binance'', ''okx'']" initial_state]
    by (auto simp: small_feeds_ok watch_all_tickers_def)
  note whole = price_cache_last_write_wins [THEN conjunct2, THEN mp, OF run]
  have c: "stored (price_cache st) ''BTC/USDT:USDT'' ''binance'' = Some (Some 102)"
    using whole [of "''BTC/USDT:USDT''" "''binance''"]
    by (simp add: small_delivered failing_delivered later_delivered last_quote_def)
  have d: "stored (price_cache st) ''ETH/USDT:USDT'' ''binance'' = Some (Some 2000)"
    using whole [of "''ETH/USDT:USDT''" "''binance''"]
    by (simp add: small_delivered failing_delivered later_delivered last_quote_def)
  have e: "stored (price_cache st) ''ETH/USDT:USDT'' ''okx'' = None"
    using whole [of "''ETH/USDT:USDT''" "''okx''"]
    by (simp add: small_delivered failing_delivered later_delivered last_quote_def)
  show ?thesis
    using later_env_subscribe small_stored(1) a b run c d e by (intro conjI exI [of _ st])
qed

text \<open>
  Claim C9. As long as the exceptions that the feed raises are instances of \<open>Exception\<close>,
  the loop is still running after any number of cycles, whatever happened in them. A
  cycle that ends with such an exception, wherever in its body, prints \<open>Error: \<close> and
  the message, sleeps 5 seconds, and the loop goes on with the next cycle from the state
  the cycle left. There is no bound on retries: after \<open>n\<close> cycles in a row whose
  ingestion raises, for every \<open>n\<close>, the loop has printed and slept \<open>n\<close> times and is
  still running.
\<close>

theorem loop_survives_exceptions:
  "((\<forall>env\<in>set envs. feed_raises_only_Exception env)
      \<longrightarrow> (\<exists>st. watch_all_tickers ccxtpro to_list exchange_names envs = Running st))
   \<and> (cycle to_list exchanges exchange_names env st0 = (st1, Some e) \<and> is_Exception e
      \<longrightarrow> watch_loop to_list exchanges exchange_names (env # envs') st0
            = watch_loop to_list exchanges exchange_names envs'
                (st1\<lparr>effects := effects st1 @ [Print_error (''Error: '' @ str e), Sleep 5]\<rparr>))
   \<and> ((\<forall>cache. subscribe_tickers exchanges (watch_tickers env) cache = Inl e) \<and> is_Exception e
      \<longrightarrow> watch_loop to_list exchanges exchange_names (replicate n env) st0
            = Running (st0\<lparr>effects := effects st0
                 @ concat (replicate n [Print_error (''Error: '' @ str e), Sleep 5])\<rparr>))"
proof -
  have a: "(\<forall>env\<in>set envs. feed_raises_only_Exception env)
      \<longrightarrow> (\<exists>st. watch_all_tickers ccxtpro to_list exchange_names envs = Running st)"
    unfolding watch_all_tickers_def using watch_loop_keeps_running by blast
  have b: "cycle to_list exchanges exchange_names env st0 = (st1, Some e) \<and> is_Exception e
      \<longrightarrow> watch_loop to_list exchanges exchange_names (env # envs') st0
            = watch_loop to_list exchanges exchange_names envs'
                (st1\<lparr>effects := effects st1 @ [Print_error (''Error: '' @ str e), Sleep 5]\<rparr>)"
    by simp
  have c: "(\<forall>cache. subscribe_tickers exchanges (watch_tickers env) cache = Inl e) \<and> is_Exception e
      \<longrightarrow> watch_loop to_list exchanges exchange_names (replicate n env) st0
            = Running (st0\<lparr>effects := effects st0
                 @ concat (replicate n [Print_error (''Error: '' @ str e), Sleep 5])\<rparr>)"
    using watch_loop_retries by blast
  show ?thesis
    using a b c by (intro conjI)
qed

theorem loop_survives_exceptions_witness:
  "feed_raises_only_Exception failing_env
   \<and> feed_raises_only_Exception small_env
   \<and> (\<exists>st. watch_all_tickers small_ccxtpro small_order [''binance'', ''okx'']
              [failing_env, failing_env, small_env] = Running st)
   \<and> cycle small_order (make_exchanges small_ccxtpro [''binance'', ''okx''])
        [''binance'', ''okx''] failing_env initial_state
       = (initial_state, Some (PyException ''okx NetworkError''))
   \<and> watch_loop small_order (make_exchanges small_ccxtpro [''binance'', ''okx''])
        [''binance'', ''okx''] [failing_env, small_env] initial_state
       = watch_loop small_order (make_exchanges small_ccxtpro [''binance'', ''okx''])
           [''binance'', ''okx''] [small_env]
           (initial_state\<lparr>effects := [Print_error ''Error: okx NetworkError'', Sleep 5]\<rparr>)
   \<and> watch_loop small_order (make_exchanges small_ccxtpro [''binance'', ''okx''])
        [''binance'', ''okx''] (replicate 3 failing_env) initial_state
       = Running (initial_state\<lparr>effects :=
           [Print_error ''Error: okx NetworkError'', Sleep 5,
            Print_error ''Error: okx NetworkError'', Sleep 5,
            Print_error ''Error: okx NetworkError'', Sleep 5]\<rparr>)"
proof -
  let ?X = "make_exchanges small_ccxtpro [''binance'', ''okx'']"
  let ?N = "[''binance'', ''okx'']"
  let ?e = "PyException ''okx NetworkError''"
  have ok: "\<forall>env\<in>set [failing_env, failing_env, small_env]. feed_raises_only_Exception env"
    by (simp add: small_feeds_ok)
  have a: "\<exists>st. watch_all_tickers small_ccxtpro small_order ?N
              [failing_env, failing_env, small_env] = Running st"
    using loop_survives_exceptions [THEN conjunct1, THEN mp, OF ok] .
  have f: "cycle small_order ?X ?N failing_env initial_state = (initial_state, Some ?e)"
    by (simp add: cycle_def failing_subscribe)
  have fe: "cycle small_order ?X ?N failing_env initial_state = (initial_state, Some ?e)
            \<and> is_Exception ?e"
    using f by simp
  have b: "watch_loop small_order ?X ?N [failing_env, small_env] initial_state
       = watch_loop small_order ?X ?N [small_env]
           (initial_state\<lparr>effects := [Print_error ''Error: okx NetworkError'', Sleep 5]\<rparr>)"
    using loop_survives_exceptions [THEN conjunct2, THEN conjunct1, THEN mp, OF fe,
        of "[small_env]"]
    by (simp add: initial_state_simps)
  have all: "(\<forall>cache. subscribe_tickers ?X (watch_tickers failing_env) cache = Inl ?e)
            \<and> is_Exception ?e"
    by (simp add: failing_subscribe)
  have c: "watch_loop small_order ?X ?N (replicate 3 failing_env) initial_state
       = Running (initial_state\<lparr>effects :=
           [Print_error ''Error: okx NetworkError'', Sleep 5,
            Print_error ''Error: okx NetworkError'', Sleep 5,
            Print_error ''Error: okx NetworkError'', Sleep 5]\<rparr>)"
    using loop_survives_exceptions [THEN conjunct2, THEN conjunct2, THEN mp, OF all,
        of small_order ?N 3 initial_state]
    by (simp add: initial_state_simps numeral_3_eq_3)
  show ?thesis
    using small_feeds_ok(2) small_feeds_ok(1) a f b c by (intro conjI)
qed

text \<open>
  Claim C10. In every state that the loop reaches from its initial state, each batch on
  the queue has exactly three tuples, and each of them is a high-spread tuple: the gate
  lets a batch through only when there are at least three, and the slice keeps three.
\<close>

theorem batches_have_exactly_three:
  "watch_all_tickers ccxtpro to_list exchange_names envs = Running st \<Longrightarrow>
   batch \<in> set (high_spread_queue st) \<Longrightarrow>
     length batch = 3 \<and> (\<forall>x\<in>set batch. is_high_spread x)"
proof -
  assume run: "watch_all_tickers ccxtpro to_list exchange_names envs = Running st"
    and mem: "batch \<in> set (high_spread_queue st)"
  have start: "\<forall>batch\<in>set (high_spread_queue initial_state). batch_ok batch"
    by (simp add: initial_state_simps)
  have "\<forall>batch\<in>set (high_spread_queue st). batch_ok batch"
    using run [unfolded watch_all_tickers_def] start by (rule queue_watch_loop_ok)
  then have "batch_ok batch"
    using mem by simp
  then show ?thesis
    by (simp add: batch_ok_def)
qed

theorem batches_have_exactly_three_witness:
  "watch_all_tickers full_ccxtpro full_order full_names [full_env]
     = Running (finish_cycle full_env full_discovered full_high
                  (initial_state\<lparr>price_cache := full_cache\<rparr>))
   \<and> high_spread_queue (finish_cycle full_env full_discovered full_high
                           (initial_state\<lparr>price_cache := full_cache\<rparr>))
       = [[full_record ''BTC/USDT:USDT'' ''binance'' ''okx'',
           full_record ''ETH/USDT:USDT'' ''binance'' ''okx'',
           full_record ''SOL/USDT:USDT'' ''binance'' ''okx'']]
   \<and> length [full_record ''BTC/USDT:USDT'' ''binance'' ''okx'',
              full_record ''ETH/USDT:USDT'' ''binance'' ''okx'',
              full_record ''SOL/USDT:USDT'' ''binance'' ''okx''] = 3
   \<and> is_high_spread (full_record ''BTC/USDT:USDT'' ''binance'' ''okx'')
   \<and> is_high_spread (full_record ''ETH/USDT:USDT'' ''binance'' ''okx'')
   \<and> is_high_spread (full_record ''SOL/USDT:USDT'' ''binance'' ''okx'')"
proof -
  let ?st = "finish_cycle full_env full_discovered full_high
               (initial_state\<lparr>price_cache := full_cache\<rparr>)"
  let ?batch = "[full_record ''BTC/USDT:USDT'' ''binance'' ''okx'',
                 full_record ''ETH/USDT:USDT'' ''binance'' ''okx'',
                 full_record ''SOL/USDT:USDT'' ''binance'' ''okx'']"
  have run: "watch_all_tickers full_ccxtpro full_order full_names [full_env] = Running ?st"
    by (simp add: watch_all_tickers_def full_cycle)
  have queue: "high_spread_queue ?st = [?batch]"
    using full_queue by (simp add: full_cycle)
  have mem: "?batch \<in> set (high_spread_queue ?st)"
    by (simp add: queue)
  have "length ?batch = 3 \<and> (\<forall>x\<in>set ?batch. is_high_spread x)"
    using run mem by (rule batches_have_exactly_three)
  then show ?thesis
    using run queue by simp
qed

subsection \<open>The batch and the ranking\<close>

text \<open>
  Claim C1, evaluated on the larger run. The cycle passes the gate with 252 tuples, 210 of
  them high-spread. The batch it puts on the queue holds the first three high-spread
  tuples in discovery order, those of the pair binance/okx with a spread percent of 1. The
  top three high-spread tuples by the ranking of the rank step (whether the high-spread
  list is ranked, or the ranked full list is filtered) are those of the pair binance/bybit,
  with a spread percent of 102. The listing of sets used here is the order of the catalog;
  \<open>first_three_not_top_three_any_listing\<close> above shows the same divergence for every
  listing.
\<close>

theorem batch_taken_in_discovery_order:
  "subscribe_tickers (make_exchanges full_ccxtpro full_names) (watch_tickers full_env)
      (price_cache initial_state) = Inr full_cache
   \<and> compute_spreads full_order (make_exchanges full_ccxtpro full_names) full_cache full_names
       = Inr (full_discovered, full_high)
   \<and> length (rank full_discovered) = 252
   \<and> length full_high = 210
   \<and> snd (cycle full_order (make_exchanges full_ccxtpro full_names) full_names full_env
             initial_state) = None
   \<and> high_spread_queue
        (fst (cycle full_order (make_exchanges full_ccxtpro full_names) full_names full_env
                initial_state))
       = [[full_record ''BTC/USDT:USDT'' ''binance'' ''okx'',
           full_record ''ETH/USDT:USDT'' ''binance'' ''okx'',
           full_record ''SOL/USDT:USDT'' ''binance'' ''okx'']]
   \<and> take 3 (rank full_high)
       = [full_record ''BTC/USDT:USDT'' ''binance'' ''bybit'',
          full_record ''ETH/USDT:USDT'' ''binance'' ''bybit'',
          full_record ''SOL/USDT:USDT'' ''binance'' ''bybit'']
   \<and> take 3 (filter is_high_spread (rank full_discovered)) = take 3 (rank full_high)
   \<and> sr_spread_percent (full_record ''BTC/USDT:USDT'' ''binance'' ''okx'') = 1
   \<and> sr_spread_percent (full_record ''BTC/USDT:USDT'' ''binance'' ''bybit'') = 102"
proof -
  have a: "subscribe_tickers (make_exchanges full_ccxtpro full_names) (watch_tickers full_env)
      (price_cache initial_state) = Inr full_cache"
    by (simp add: initial_state_simps full_subscribe)
  have c: "length (rank full_discovered) = 252"
    by (simp add: rank_def list_sort_reverse_def full_lengths)
  have e: "snd (cycle full_order (make_exchanges full_ccxtpro full_names) full_names full_env
             initial_state) = None"
    by (simp add: full_cycle)
  have h: "take 3 (filter is_high_spread (rank full_discovered)) = take 3 (rank full_high)"
    by (simp add: filter_rank full_high_def)
  have i: "sr_spread_percent (full_record ''BTC/USDT:USDT'' ''binance'' ''okx'') = 1"
    by (simp add: full_record_def full_quote_def)
  have j: "sr_spread_percent (full_record ''BTC/USDT:USDT'' ''binance'' ''bybit'') = 102"
    by (simp add: full_record_def full_quote_def)
  show ?thesis
    using a full_compute c full_lengths(2) e full_queue full_top h i j by (intro conjI)
qed

end
